theory Spec2Isabelle
  imports Complex_Main
begin

section \<open>Text and the pattern matcher\<close>

text \<open>
  Request and scan text is a Python \<open>str\<close>. It is modelled as a \<open>string\<close> whose
  characters are read as the code points 0..255. The regular expressions of the
  pattern tables are compiled by Python's \<open>re\<close> module; their abstract syntax and
  the backtracking search of \<open>re\<close> are written out below for the constructs the
  tables use: literals, character sets, \<open>.\<close>, the classes \<open>\d \s \w\<close>, greedy counted
  repetition, the anchors \<open>\b\<close> and \<open>$\<close>, and the flag \<open>(?i)\<close>.
\<close>

definition code :: "char \<Rightarrow> nat" where
  "code c = of_char c"

definition in_range :: "nat \<Rightarrow> nat \<Rightarrow> char \<Rightarrow> bool" where
  "in_range lo hi c = (lo \<le> code c \<and> code c \<le> hi)"

text \<open>\<open>\d\<close>, \<open>\s\<close> and \<open>\w\<close> of a \<open>str\<close> pattern, on the code points 0..255.\<close>

definition is_digit :: "char \<Rightarrow> bool" where
  "is_digit c = in_range 48 57 c"

definition is_space :: "char \<Rightarrow> bool" where
  "is_space c = (in_range 9 13 c \<or> in_range 28 32 c \<or> code c = 133 \<or> code c = 160)"

definition is_word :: "char \<Rightarrow> bool" where
  "is_word c = (in_range 48 57 c \<or> in_range 65 90 c \<or> code c = 95 \<or> in_range 97 122 c
     \<or> code c = 170 \<or> in_range 178 179 c \<or> code c = 181 \<or> in_range 185 186 c
     \<or> in_range 188 190 c \<or> in_range 192 214 c \<or> in_range 216 246 c \<or> in_range 248 255 c)"

text \<open>Case folding of the letters A-Z, all that the literals of the tables need.\<close>

definition to_lower :: "char \<Rightarrow> char" where
  "to_lower c = (if in_range 65 90 c then char_of (code c + 32) else c)"

definition to_upper :: "char \<Rightarrow> char" where
  "to_upper c = (if in_range 97 122 c then char_of (code c - 32) else c)"

datatype citem = Ch char | Rng char char | Digit | Space | Word

datatype regex =
    Eps
  | One "citem list"
  | NoneOf "citem list"
  | Dot
  | Seq regex regex
  | Rep nat "nat option" regex
  | WordB
  | Eol

datatype pattern = Pattern (ignorecase: bool) (body: regex)

fun citem_match :: "bool \<Rightarrow> citem \<Rightarrow> char \<Rightarrow> bool" where
  "citem_match ic (Ch c) x = (if ic then to_lower x = to_lower c else x = c)"
| "citem_match ic (Rng a b) x =
     (if ic then in_range (code a) (code b) x \<or> in_range (code a) (code b) (to_lower x)
                 \<or> in_range (code a) (code b) (to_upper x)
      else in_range (code a) (code b) x)"
| "citem_match ic Digit x = is_digit x"
| "citem_match ic Space x = is_space x"
| "citem_match ic Word x = is_word x"

definition set_match :: "bool \<Rightarrow> citem list \<Rightarrow> char \<Rightarrow> bool" where
  "set_match ic cs x = list_ex (\<lambda>c. citem_match ic c x) cs"

text \<open>
  \<open>\b\<close> holds at position \<open>i\<close> when exactly one of the characters before and after
  \<open>i\<close> is a word character (the ends of the text count as non-word); \<open>$\<close> holds at
  the end of the text and before a final newline.
\<close>

definition word_at :: "string \<Rightarrow> nat \<Rightarrow> bool" where
  "word_at s i = (i < length s \<and> is_word (s ! i))"

definition boundary :: "string \<Rightarrow> nat \<Rightarrow> bool" where
  "boundary s i = ((0 < i \<and> word_at s (i - 1)) \<noteq> word_at s i)"

definition at_end :: "string \<Rightarrow> nat \<Rightarrow> bool" where
  "at_end s i = (i = length s \<or> (Suc i = length s \<and> code (s ! i) = 10))"

text \<open>
  Greedy repetition \<open>{m,n}\<close> (\<open>n = None\<close>: unbounded) from position \<open>i\<close>: the end
  positions in the order in which backtracking tries them, one more iteration first,
  stopping last. \<open>step\<close> gives the end positions of one iteration; an iteration beyond
  the minimum has to consume a character.
\<close>

function rep_from :: "(nat \<Rightarrow> nat list) \<Rightarrow> nat \<Rightarrow> nat \<Rightarrow> nat option \<Rightarrow> nat \<Rightarrow> nat list" where
  "rep_from step len m n i =
     (if n = Some 0 then []
      else concat (map (rep_from step len (m - 1) (map_option (\<lambda>k. k - 1) n))
                       (filter (\<lambda>j. i \<le> j \<and> j \<le> len \<and> (0 < m \<or> i < j)) (step i))))
     @ (if m = 0 then [i] else [])"
  by pat_completeness auto
termination
  by (relation "measure (\<lambda>(step, len, m, n, i). m + (len - i))") auto

declare rep_from.simps [simp del]

text \<open>
  \<open>rmatch r ic s i\<close>: the positions where a match of \<open>r\<close> starting at \<open>i\<close> in \<open>s\<close> can
  end, in backtracking order; the head is the match \<open>re\<close> reports.
\<close>

primrec rmatch :: "regex \<Rightarrow> bool \<Rightarrow> string \<Rightarrow> nat \<Rightarrow> nat list" where
  "rmatch Eps ic s i = [i]"
| "rmatch (One cs) ic s i = (if i < length s \<and> set_match ic cs (s ! i) then [Suc i] else [])"
| "rmatch (NoneOf cs) ic s i = (if i < length s \<and> \<not> set_match ic cs (s ! i) then [Suc i] else [])"
| "rmatch Dot ic s i = (if i < length s \<and> code (s ! i) \<noteq> 10 then [Suc i] else [])"
| "rmatch (Seq a b) ic s i = concat (map (rmatch b ic s) (rmatch a ic s i))"
| "rmatch (Rep m n r) ic s i = rep_from (rmatch r ic s) (length s) m n i"
| "rmatch WordB ic s i = (if boundary s i then [i] else [])"
| "rmatch Eol ic s i = (if at_end s i then [i] else [])"

text \<open>\<open>re.search(pattern, s)\<close> as a truth value: some start position has a match.\<close>

definition re_search :: "pattern \<Rightarrow> string \<Rightarrow> bool" where
  "re_search p s = list_ex (\<lambda>i. rmatch (body p) (ignorecase p) s i \<noteq> []) [0..<Suc (length s)]"

text \<open>
  \<open>re.findall(pattern, s)\<close> for a pattern without capturing groups: the matched
  substrings, leftmost first, each search resuming where the last match ended. The
  patterns it is called with all consume at least one character; after an empty
  match the search would resume one position further.
\<close>

function findall_from :: "pattern \<Rightarrow> string \<Rightarrow> nat \<Rightarrow> string list" where
  "findall_from p s pos =
     (if length s < pos then []
      else case rmatch (body p) (ignorecase p) s pos of
             [] \<Rightarrow> findall_from p s (Suc pos)
           | j # _ \<Rightarrow> take (j - pos) (drop pos s) # findall_from p s (max j (Suc pos)))"
  by pat_completeness auto
termination
  by (relation "measure (\<lambda>(p, s, pos). Suc (length s) - pos)") auto

declare findall_from.simps [simp del]

definition re_findall :: "pattern \<Rightarrow> string \<Rightarrow> string list" where
  "re_findall p s = findall_from p s 0"

text \<open>Pattern building blocks, named after the notation they stand for.\<close>

definition lit :: "char \<Rightarrow> regex" where
  "lit c = One [Ch c]"

definition cat :: "regex list \<Rightarrow> regex" where
  "cat rs = foldr Seq rs Eps"

definition lits :: "string \<Rightarrow> regex" where
  "lits w = cat (map lit w)"

definition many :: "regex \<Rightarrow> regex" where
  "many r = Rep 0 None r"

definition many1 :: "regex \<Rightarrow> regex" where
  "many1 r = Rep 1 None r"

definition opt :: "regex \<Rightarrow> regex" where
  "opt r = Rep 0 (Some 1) r"

definition exactly :: "nat \<Rightarrow> regex \<Rightarrow> regex" where
  "exactly k r = Rep k (Some k) r"

definition at_least :: "nat \<Rightarrow> regex \<Rightarrow> regex" where
  "at_least k r = Rep k None r"

definition between :: "nat \<Rightarrow> nat \<Rightarrow> regex \<Rightarrow> regex" where
  "between k l r = Rep k (Some l) r"

definition sp :: regex where
  "sp = One [Space]"

definition dg :: regex where
  "dg = One [Digit]"

definition wd :: regex where
  "wd = One [Word]"

definition icase :: "regex list \<Rightarrow> pattern" where
  "icase rs = Pattern True (cat rs)"

definition plain :: "regex list \<Rightarrow> pattern" where
  "plain rs = Pattern False (cat rs)"

section \<open>The pattern tables of \<open>SecurityMonitor\<close>\<close>

text \<open>
  \<open>_initialize_threat_patterns\<close>: the dictionary in insertion order, each regular
  expression in the abstract syntax above. The group around each expression does not
  change what \<open>re.search\<close> answers. The apostrophe is \<open>CHR 0x27\<close>, the backslash
  \<open>CHR 0x5C\<close>, the backquote \<open>CHR 0x60\<close>.
\<close>

definition sql_injection_patterns :: "pattern list" where
  "sql_injection_patterns =
    [icase [lits ''union'', many1 sp, lits ''select''],
     icase [lits ''drop'', many1 sp, lits ''table''],
     icase [lits ''insert'', many1 sp, lits ''into''],
     icase [lits ''delete'', many1 sp, lits ''from''],
     icase [lits ''update'', many1 sp, many1 wd, many1 sp, lits ''set''],
     icase [lit (CHR 0x27), many sp, lits ''or'', many1 sp, lit (CHR 0x27), many1 dg,
            lit (CHR 0x27), many sp, lit (CHR ''=''), many sp, lit (CHR 0x27), many1 dg],
     icase [lit (CHR 0x27), many sp, lits ''or'', many1 sp, many1 dg, many sp,
            lit (CHR ''=''), many sp, many1 dg],
     icase [lits ''--'', many sp, Eol],
     icase [lits ''/*'', many Dot, lits ''*/'']]"

definition xss_patterns :: "pattern list" where
  "xss_patterns =
    [icase [lits ''<script'', many (NoneOf [Ch (CHR ''>'')]), lit (CHR ''>'')],
     icase [lits ''<iframe'', many (NoneOf [Ch (CHR ''>'')]), lit (CHR ''>'')],
     icase [lits ''javascript:''],
     icase [lits ''on'', many1 wd, many sp, lit (CHR ''='')],
     icase [lits ''<img'', many (NoneOf [Ch (CHR ''>'')]), lits ''onerror''],
     icase [lits ''<svg'', many (NoneOf [Ch (CHR ''>'')]), lits ''onload''],
     icase [lits ''expression'', many sp, lit (CHR ''('')],
     icase [lits ''vbscript:'']]"

definition command_injection_patterns :: "pattern list" where
  "command_injection_patterns =
    [icase [lit (CHR '';''), many sp, lits ''rm'', many1 sp, lits ''-rf''],
     icase [lit (CHR '';''), many sp, lits ''cat'', many1 sp, lits ''/etc/passwd''],
     icase [lit (CHR '';''), many sp, lits ''wget'', many1 sp],
     icase [lit (CHR '';''), many sp, lits ''curl'', many1 sp],
     icase [lit (CHR ''|''), many sp, lits ''nc'', many1 sp],
     icase [lits ''$('', many Dot, lit (CHR '')'')],
     icase [lit (CHR 0x60), many Dot, lit (CHR 0x60)],
     icase [lit (CHR '';''), many sp, lits ''exec'', many1 sp]]"

definition path_traversal_patterns :: "pattern list" where
  "path_traversal_patterns =
    [plain [at_least 2 (lits ''../'')],
     plain [at_least 2 (cat [lits ''..'', lit (CHR 0x5C)])],
     icase [lits ''file://''],
     icase [lits ''/etc/passwd''],
     icase [lits ''/windows/system32''],
     icase [lits ''..%2f''],
     icase [lits ''..%5c'']]"

definition threat_patterns :: "(string \<times> pattern list) list" where
  "threat_patterns =
    [(''sql_injection'', sql_injection_patterns),
     (''xss'', xss_patterns),
     (''command_injection'', command_injection_patterns),
     (''path_traversal'', path_traversal_patterns)]"

text \<open>\<open>_initialize_pii_patterns\<close>, in insertion order.\<close>

definition email_pattern :: pattern where
  "email_pattern = plain
    [WordB,
     many1 (One [Rng (CHR ''A'') (CHR ''Z''), Rng (CHR ''a'') (CHR ''z''), Rng (CHR ''0'') (CHR ''9''),
                 Ch (CHR ''.''), Ch (CHR ''_''), Ch (CHR ''%''), Ch (CHR ''+''), Ch (CHR ''-'')]),
     lit (CHR ''@''),
     many1 (One [Rng (CHR ''A'') (CHR ''Z''), Rng (CHR ''a'') (CHR ''z''), Rng (CHR ''0'') (CHR ''9''),
                 Ch (CHR ''.''), Ch (CHR ''-'')]),
     lit (CHR ''.''),
     at_least 2 (One [Rng (CHR ''A'') (CHR ''Z''), Ch (CHR ''|''), Rng (CHR ''a'') (CHR ''z'')]),
     WordB]"

definition phone_pattern :: pattern where
  "phone_pattern = plain
    [WordB,
     opt (cat [opt (lit (CHR ''+'')), lit (CHR ''1''), opt (One [Ch (CHR ''-''), Ch (CHR ''.''), Space])]),
     opt (lit (CHR ''('')), exactly 3 dg, opt (lit (CHR '')'')),
     opt (One [Ch (CHR ''-''), Ch (CHR ''.''), Space]), exactly 3 dg,
     opt (One [Ch (CHR ''-''), Ch (CHR ''.''), Space]), exactly 4 dg,
     WordB]"

definition ssn_pattern :: pattern where
  "ssn_pattern = plain
    [WordB, exactly 3 dg, lit (CHR ''-''), exactly 2 dg, lit (CHR ''-''), exactly 4 dg, WordB]"

definition credit_card_pattern :: pattern where
  "credit_card_pattern = plain
    [WordB, exactly 3 (cat [exactly 4 dg, opt (One [Ch (CHR ''-''), Space])]), exactly 4 dg, WordB]"

definition ip_address_pattern :: pattern where
  "ip_address_pattern = plain
    [WordB, exactly 3 (cat [between 1 3 dg, lit (CHR ''.'')]), between 1 3 dg, WordB]"

definition url_pattern :: pattern where
  "url_pattern = plain
    [lits ''http'', opt (lit (CHR ''s'')), lits ''://'',
     many1 (One [Ch (CHR ''-''), Word, Ch (CHR ''.'')]),
     opt (many1 (One [Ch (CHR '':''), Digit])),
     opt (cat [lit (CHR ''/''), many (One [Word, Ch (CHR ''/''), Ch (CHR ''_''), Ch (CHR ''.'')])]),
     opt (cat [lit (CHR ''?''),
               many (One [Word, Ch (CHR ''&''), Ch (CHR ''=''), Ch (CHR ''%''), Ch (CHR ''.'')])]),
     opt (cat [lit (CHR ''#''), many wd])]"

definition pii_patterns :: "(string \<times> pattern) list" where
  "pii_patterns =
    [(''email'', email_pattern),
     (''phone'', phone_pattern),
     (''ssn'', ssn_pattern),
     (''credit_card'', credit_card_pattern),
     (''ip_address'', ip_address_pattern),
     (''url'', url_pattern)]"

section \<open>\<open>SecurityMonitor\<close> (package SDK)\<close>

text \<open>
  Dictionaries with a fixed set of keys are records. The free-form \<open>metadata\<close>
  dictionary is an association list. Severities, statuses and type names stay the
  strings they are in the source. A reading of \<open>time.time()\<close> is a real number and is
  passed to each operation as \<open>now\<close>; the two wall-clock fields of the analysis
  results (\<open>analysis_time_ms\<close>, \<open>timestamp\<close>) are not modelled. Arguments with a
  default value are passed explicitly (\<open>None\<close> for an absent \<open>metadata\<close>).
\<close>

record threat_info =
  ti_type :: string
  ti_pattern :: pattern
  ti_severity :: string

datatype mvalue = MStr string | MNat nat | MStrs "string list" | MThreats "threat_info list"

type_synonym metadata = "(string \<times> mvalue) list"

record security_event =
  se_id :: nat
  se_event_type :: string
  se_description :: string
  se_severity :: string
  se_metadata :: metadata
  se_timestamp :: real

record compliance_event =
  ce_id :: nat
  ce_compliance_type :: string
  ce_status :: string
  ce_details :: string
  ce_metadata :: metadata
  ce_timestamp :: real

record monitor =
  security_events :: "security_event list"
  compliance_logs :: "compliance_event list"
  event_counts :: "string \<Rightarrow> nat"
  severity_counts :: "string \<Rightarrow> nat"

text \<open>\<open>__init__\<close>: empty logs, counters that default to 0.\<close>

definition init :: monitor where
  "init = \<lparr>security_events = [], compliance_logs = [],
            event_counts = (\<lambda>_. 0), severity_counts = (\<lambda>_. 0)\<rparr>"

text \<open>The slice \<open>xs[-n:]\<close> for \<open>n > 0\<close>.\<close>

definition last_n :: "nat \<Rightarrow> 'a list \<Rightarrow> 'a list" where
  "last_n n xs = drop (length xs - n) xs"

text \<open>\<open>metadata or {}\<close>.\<close>

definition or_empty :: "metadata option \<Rightarrow> metadata" where
  "or_empty m = (case m of None \<Rightarrow> [] | Some d \<Rightarrow> d)"

definition log_security_event ::
  "real \<Rightarrow> string \<Rightarrow> string \<Rightarrow> string \<Rightarrow> metadata option \<Rightarrow> monitor \<Rightarrow> monitor" where
  "log_security_event now event_type description severity metadata st =
     (let event = \<lparr>se_id = length (security_events st) + 1,
                   se_event_type = event_type,
                   se_description = description,
                   se_severity = severity,
                   se_metadata = or_empty metadata,
                   se_timestamp = now\<rparr>;
          events = security_events st @ [event]
      in st\<lparr>security_events := (if length events > 1000 then last_n 1000 events else events),
            event_counts := (event_counts st)(event_type := event_counts st event_type + 1),
            severity_counts := (severity_counts st)(severity := severity_counts st severity + 1)\<rparr>)"

definition log_compliance_event ::
  "real \<Rightarrow> string \<Rightarrow> string \<Rightarrow> string \<Rightarrow> metadata option \<Rightarrow> monitor \<Rightarrow> monitor" where
  "log_compliance_event now compliance_type status details metadata st =
     (let event = \<lparr>ce_id = length (compliance_logs st) + 1,
                   ce_compliance_type = compliance_type,
                   ce_status = status,
                   ce_details = details,
                   ce_metadata = or_empty metadata,
                   ce_timestamp = now\<rparr>;
          logs = compliance_logs st @ [event]
      in st\<lparr>compliance_logs := (if length logs > 1000 then last_n 1000 logs else logs)\<rparr>)"

definition get_threat_severity :: "string \<Rightarrow> string" where
  "get_threat_severity threat_type =
     (case map_of [(''sql_injection'', ''critical''),
                   (''command_injection'', ''critical''),
                   (''xss'', ''high''),
                   (''path_traversal'', ''high'')] threat_type of
        Some sev \<Rightarrow> sev | None \<Rightarrow> ''medium'')"

definition get_pii_severity :: "string \<Rightarrow> string" where
  "get_pii_severity pii_type =
     (case map_of [(''ssn'', ''critical''),
                   (''credit_card'', ''critical''),
                   (''email'', ''medium''),
                   (''phone'', ''medium''),
                   (''ip_address'', ''low''),
                   (''url'', ''low'')] pii_type of
        Some sev \<Rightarrow> sev | None \<Rightarrow> ''medium'')"

text \<open>Decimal numerals, for the f-strings of the descriptions.\<close>

fun digits_of :: "nat \<Rightarrow> string" where
  "digits_of n = (if n < 10 then [char_of (48 + n)]
                  else digits_of (n div 10) @ [char_of (48 + n mod 10)])"

declare digits_of.simps [simp del]

subsection \<open>\<open>analyze_request_security\<close>\<close>

text \<open>
  The body of the two nested loops: the accumulator is the pair of
  \<open>threats_detected\<close> and \<open>severity\<close>.
\<close>

definition update_severity :: "string \<Rightarrow> string \<Rightarrow> string" where
  "update_severity severity found =
     (if found = ''critical'' then ''critical''
      else if found = ''high'' \<and> severity \<noteq> ''critical'' then ''high''
      else if found = ''medium'' \<and> severity \<notin> {''critical'', ''high''} then ''medium''
      else severity)"

definition check_pattern ::
  "string \<Rightarrow> string \<Rightarrow> threat_info list \<times> string \<Rightarrow> pattern \<Rightarrow> threat_info list \<times> string" where
  "check_pattern content ttype acc p =
     (if re_search p content
      then let info = \<lparr>ti_type = ttype, ti_pattern = p,
                        ti_severity = get_threat_severity ttype\<rparr>
           in (fst acc @ [info], update_severity (snd acc) (ti_severity info))
      else acc)"

definition check_threat_type ::
  "string \<Rightarrow> threat_info list \<times> string \<Rightarrow> string \<times> pattern list \<Rightarrow> threat_info list \<times> string" where
  "check_threat_type content acc entry =
     foldl (check_pattern content (fst entry)) acc (snd entry)"

definition scan_threats :: "string \<Rightarrow> threat_info list \<times> string" where
  "scan_threats content = foldl (check_threat_type content) ([], ''low'') threat_patterns"

record threat_result =
  threats_detected :: "threat_info list"
  threat_count :: nat
  severity :: string
  safe :: bool

text \<open>
  \<open>request_data\<close> is a dictionary of arbitrary values; \<open>to_str\<close> stands for Python's
  \<open>str()\<close> on them. A missing \<open>'content'\<close> key gives \<open>str('')\<close>, the empty string.
\<close>

definition content_of :: "('v \<Rightarrow> string) \<Rightarrow> (string \<rightharpoonup> 'v) \<Rightarrow> string" where
  "content_of to_str request_data =
     (case request_data ''content'' of None \<Rightarrow> [] | Some v \<Rightarrow> to_str v)"

definition analyze_request_security ::
  "('v \<Rightarrow> string) \<Rightarrow> real \<Rightarrow> string \<Rightarrow> (string \<rightharpoonup> 'v) \<Rightarrow> monitor \<Rightarrow> threat_result \<times> monitor" where
  "analyze_request_security to_str now operation request_data st =
     (let content = content_of to_str request_data;
          (threats, sev) = scan_threats content;
          st' = (if threats \<noteq> []
                 then log_security_event now ''threat_detection''
                        (''Detected '' @ digits_of (length threats) @ '' security threats in '' @ operation)
                        sev
                        (Some [(''operation'', MStr operation),
                               (''threats'', MThreats threats),
                               (''content_length'', MNat (length content))])
                        st
                 else st)
      in (\<lparr>threats_detected = threats,
           threat_count = length threats,
           severity = sev,
           safe = (length threats = 0)\<rparr>, st'))"

subsection \<open>\<open>check_data_privacy\<close>\<close>

record pii_info =
  pi_type :: string
  pi_count :: nat
  pi_matches :: "string list"
  pi_severity :: string

definition scan_pii :: "string \<Rightarrow> pii_info list \<Rightarrow> string \<times> pattern \<Rightarrow> pii_info list" where
  "scan_pii text acc entry =
     (let matches = re_findall (snd entry) text
      in if matches \<noteq> []
         then acc @ [\<lparr>pi_type = fst entry,
                      pi_count = length matches,
                      pi_matches = take 5 matches,
                      pi_severity = get_pii_severity (fst entry)\<rparr>]
         else acc)"

record privacy_result =
  pii_detected :: "pii_info list"
  pii_types_count :: nat
  total_pii_instances :: nat
  compliance_status :: string
  privacy_severity :: string
  privacy_safe :: bool

definition check_data_privacy :: "real \<Rightarrow> string \<Rightarrow> monitor \<Rightarrow> privacy_result \<times> monitor" where
  "check_data_privacy now text st =
     (let detected = foldl (scan_pii text) [] pii_patterns;
          (status, sev) =
            (if list_ex (\<lambda>pii. pi_severity pii \<in> {''high'', ''critical''}) detected
             then (''non_compliant'', ''high'')
             else if detected \<noteq> [] then (''warning'', ''medium'')
             else (''compliant'', ''low''));
          st' = log_compliance_event now ''pii_detection'' status
                  (''Detected '' @ digits_of (length detected) @ '' types of PII in data'')
                  (Some [(''pii_types'', MStrs (map pi_type detected)),
                         (''total_pii_count'', MNat (sum_list (map pi_count detected))),
                         (''text_length'', MNat (length text))])
                  st
      in (\<lparr>pii_detected = detected,
           pii_types_count = length detected,
           total_pii_instances = sum_list (map pi_count detected),
           compliance_status = status,
           privacy_severity = sev,
           privacy_safe = (length detected = 0)\<rparr>, st'))"

subsection \<open>Scores\<close>

definition deduction :: "string \<Rightarrow> int" where
  "deduction sev =
     (if sev = ''critical'' then 20
      else if sev = ''high'' then 10
      else if sev = ''medium'' then 5
      else if sev = ''low'' then 1
      else 0)"

text \<open>
  \<open>_calculate_security_score\<close>. The score is an integer except for the literal
  \<open>100.0\<close> of the first branch, and \<open>round(score, 1)\<close> leaves an integer unchanged.
\<close>

definition calculate_security_score :: "real \<Rightarrow> monitor \<Rightarrow> int" where
  "calculate_security_score now st =
     (if security_events st = [] then 100
      else let recent_cutoff = now - 86400;
               recent_events = filter (\<lambda>event. se_timestamp event > recent_cutoff) (security_events st);
               deductions = foldl (\<lambda>d event. d + deduction (se_severity event)) 0 recent_events;
               score = max 0 (100 - deductions)
           in score)"

text \<open>
  \<open>_calculate_compliance_score\<close>. The final \<open>round(score, 1)\<close> rounds a float; it is
  the parameter \<open>round1\<close>.
\<close>

definition count_status :: "string \<Rightarrow> compliance_event list \<Rightarrow> nat" where
  "count_status status logs = length (filter (\<lambda>log. ce_status log = status) logs)"

definition calculate_compliance_score :: "(real \<Rightarrow> real) \<Rightarrow> real \<Rightarrow> monitor \<Rightarrow> real" where
  "calculate_compliance_score round1 now st =
     (if compliance_logs st = [] then 100
      else let recent_cutoff = now - 86400;
               recent_logs = filter (\<lambda>log. ce_timestamp log > recent_cutoff) (compliance_logs st)
           in if recent_logs = [] then 100
              else let compliant_count = count_status ''compliant'' recent_logs;
                       warning_count = count_status ''warning'' recent_logs;
                       non_compliant_count = count_status ''non_compliant'' recent_logs;
                       total_logs = length recent_logs;
                       score = (real (compliant_count * 100) + real (warning_count * 50)
                                + real (non_compliant_count * 0)) / real total_logs
                   in round1 score)"

section \<open>\<open>SecurityMonitor\<close> (package SDK-HR): privacy check with masked samples\<close>

definition mask_sensitive_data :: "string \<Rightarrow> string" where
  "mask_sensitive_data data =
     (if length data \<le> 4 then replicate (length data) (CHR ''*'')
      else take 2 data @ replicate (length data - 4) (CHR ''*'') @ last_n 2 data)"

definition hr_phone_pattern :: pattern where
  "hr_phone_pattern = plain
    [WordB, exactly 3 dg, opt (One [Ch (CHR ''-''), Ch (CHR ''.'')]), exactly 3 dg,
     opt (One [Ch (CHR ''-''), Ch (CHR ''.'')]), exactly 4 dg, WordB]"

definition hr_credit_card_pattern :: pattern where
  "hr_credit_card_pattern = plain
    [WordB, exactly 4 dg, opt (One [Ch (CHR ''-''), Space]), exactly 4 dg,
     opt (One [Ch (CHR ''-''), Space]), exactly 4 dg, opt (One [Ch (CHR ''-''), Space]),
     exactly 4 dg, WordB]"

definition hr_patterns :: "(string \<times> pattern) list" where
  "hr_patterns =
    [(''email'', email_pattern),
     (''phone'', hr_phone_pattern),
     (''ssn'', ssn_pattern),
     (''credit_card'', hr_credit_card_pattern)]"

record finding =
  finding_type :: string
  finding_count :: nat
  finding_samples :: "string list"

definition hr_scan :: "string \<Rightarrow> finding list \<Rightarrow> string \<times> pattern \<Rightarrow> finding list" where
  "hr_scan text acc entry =
     (let matches = re_findall (snd entry) text
      in if matches \<noteq> []
         then acc @ [\<lparr>finding_type = fst entry,
                      finding_count = length matches,
                      finding_samples = map mask_sensitive_data (take 3 matches)\<rparr>]
         else acc)"

record hr_privacy_result =
  has_pii :: bool
  findings :: "finding list"
  risk_level :: string

definition hr_check_data_privacy :: "string \<Rightarrow> hr_privacy_result" where
  "hr_check_data_privacy text =
     (let found = foldl (hr_scan text) [] hr_patterns
      in \<lparr>has_pii = (length found > 0),
          findings = found,
          risk_level = (if length found > 0 then ''high'' else ''low'')\<rparr>)"

section \<open>Notions used to state the properties\<close>

text \<open>
  The rules of the threat table as a flat list of (threat type, pattern) pairs in
  scan order, the rules that match a text, and the entry the scan records for a rule.
\<close>

definition threat_rules :: "(string \<times> pattern) list" where
  "threat_rules = concat (map (\<lambda>entry. map (Pair (fst entry)) (snd entry)) threat_patterns)"

definition matched_rules :: "string \<Rightarrow> (string \<times> pattern) list" where
  "matched_rules content = filter (\<lambda>rule. re_search (snd rule) content) threat_rules"

definition threat_of :: "string \<times> pattern \<Rightarrow> threat_info" where
  "threat_of rule = \<lparr>ti_type = fst rule, ti_pattern = snd rule,
                      ti_severity = get_threat_severity (fst rule)\<rparr>"

text \<open>
  The order on severities as the specification words it: low < medium < high <
  critical. It is not taken from the code, which compares severity strings.
\<close>

definition spec_severity_rank :: "string \<Rightarrow> nat" where
  "spec_severity_rank s =
     (if s = ''low'' then 0 else if s = ''medium'' then 1 else if s = ''high'' then 2
      else if s = ''critical'' then 3 else 0)"

definition severity_names :: "string set" where
  "severity_names = {''low'', ''medium'', ''high'', ''critical''}"

text \<open>
  Sequences of calls of the two logging operations, run from a given monitor state,
  and the events such a sequence appends, each as it was when appended (the last
  entry of its log right after the call).
\<close>

datatype call =
    Log_security real string string string "metadata option"
  | Log_compliance real string string string "metadata option"

fun run_call :: "call \<Rightarrow> monitor \<Rightarrow> monitor" where
  "run_call (Log_security now event_type description sev md) st =
     log_security_event now event_type description sev md st"
| "run_call (Log_compliance now compliance_type status details md) st =
     log_compliance_event now compliance_type status details md st"

fun run :: "call list \<Rightarrow> monitor \<Rightarrow> monitor" where
  "run [] st = st"
| "run (c # cs) st = run cs (run_call c st)"

fun is_security :: "call \<Rightarrow> bool" where
  "is_security (Log_security now event_type description sev md) = True"
| "is_security (Log_compliance now compliance_type status details md) = False"

fun appended_security :: "call list \<Rightarrow> monitor \<Rightarrow> security_event list" where
  "appended_security [] st = []"
| "appended_security (c # cs) st =
     (if is_security c then [last (security_events (run_call c st))] else [])
     @ appended_security cs (run_call c st)"

fun appended_compliance :: "call list \<Rightarrow> monitor \<Rightarrow> compliance_event list" where
  "appended_compliance [] st = []"
| "appended_compliance (c # cs) st =
     (if is_security c then [] else [last (compliance_logs (run_call c st))])
     @ appended_compliance cs (run_call c st)"



section \<open>Masking of reported samples\<close>

lemma mask_length: "length (mask_sensitive_data d) = length d"
  by (auto simp: mask_sensitive_data_def last_n_def)

lemma hr_scan_fold:
  "f \<in> set (foldl (hr_scan text) acc ps) \<Longrightarrow>
   f \<in> set acc \<or> (\<exists>entry \<in> set ps. re_findall (snd entry) text \<noteq> [] \<and> finding_type f = fst entry \<and>
       finding_count f = length (re_findall (snd entry) text) \<and>
       finding_samples f = map mask_sensitive_data (take 3 (re_findall (snd entry) text)))"
proof (induction ps arbitrary: acc)
  case Nil
  then show ?case by simp
next
  case (Cons e ps)
  from Cons.prems have "f \<in> set (foldl (hr_scan text) (hr_scan text acc e) ps)" by simp
  from Cons.IH[OF this] show ?case
    by (auto simp: hr_scan_def Let_def split: if_splits)
qed

lemma scan_pii_fold:
  "foldl (scan_pii text) acc ps =
     acc @ map (\<lambda>entry. \<lparr>pi_type = fst entry,
                          pi_count = length (re_findall (snd entry) text),
                          pi_matches = take 5 (re_findall (snd entry) text),
                          pi_severity = get_pii_severity (fst entry)\<rparr>)
               (filter (\<lambda>entry. re_findall (snd entry) text \<noteq> []) ps)"
  by (induction ps arbitrary: acc) (simp_all add: scan_pii_def Let_def)

lemma sdk_reports_raw:
  "pii_detected (fst (check_data_privacy now text st)) =
     map (\<lambda>entry. \<lparr>pi_type = fst entry,
                    pi_count = length (re_findall (snd entry) text),
                    pi_matches = take 5 (re_findall (snd entry) text),
                    pi_severity = get_pii_severity (fst entry)\<rparr>)
         (filter (\<lambda>entry. re_findall (snd entry) text \<noteq> []) pii_patterns)"
  by (simp add: check_data_privacy_def Let_def scan_pii_fold split: prod.splits)

text \<open>
  Claim C1, as amended. In the SDK-HR monitor every sample that \<open>check_data_privacy\<close>
  reports is the masked form of one of the first three raw matches of its pattern.
  Masking keeps the length; a value longer than 4 characters keeps its first two and
  last two characters and has every character between them replaced by a star; a
  value of at most 4 characters becomes stars only; \<open>john@example.com\<close> becomes
  \<open>jo\<close>, twelve stars, \<open>om\<close>. The SDK monitor's \<open>check_data_privacy\<close> has no
  masking step: it reports one entry for each PII type whose pattern matches, and the
  entry carries the first five raw matches of that pattern as they stand in the text.
\<close>

theorem masked_samples:
  "(\<forall>f \<in> set (findings (hr_check_data_privacy text)).
      \<exists>entry \<in> set hr_patterns. finding_type f = fst entry \<and>
        finding_samples f = map mask_sensitive_data (take 3 (re_findall (snd entry) text)))
   \<and> length (mask_sensitive_data d) = length d
   \<and> (4 < length d \<longrightarrow> mask_sensitive_data d
          = take 2 d @ replicate (length d - 4) (CHR ''*'') @ drop (length d - 2) d)
   \<and> (length d \<le> 4 \<longrightarrow> mask_sensitive_data d = replicate (length d) (CHR ''*''))
   \<and> mask_sensitive_data ''john@example.com'' = ''jo'' @ replicate 12 (CHR ''*'') @ ''om''
   \<and> pii_detected (fst (check_data_privacy now text st)) =
        map (\<lambda>entry. \<lparr>pi_type = fst entry,
                       pi_count = length (re_findall (snd entry) text),
                       pi_matches = take 5 (re_findall (snd entry) text),
                       pi_severity = get_pii_severity (fst entry)\<rparr>)
            (filter (\<lambda>entry. re_findall (snd entry) text \<noteq> []) pii_patterns)
   \<and> (\<forall>p \<in> set (pii_detected (fst (check_data_privacy now text st))).
        \<exists>entry \<in> set pii_patterns. pi_type p = fst entry \<and>
          pi_matches p = take 5 (re_findall (snd entry) text))"
proof -
  have a: "\<forall>f \<in> set (findings (hr_check_data_privacy text)).
      \<exists>entry \<in> set hr_patterns. finding_type f = fst entry \<and>
        finding_samples f = map mask_sensitive_data (take 3 (re_findall (snd entry) text))"
  proof
    fix f assume "f \<in> set (findings (hr_check_data_privacy text))"
    then have "f \<in> set (foldl (hr_scan text) [] hr_patterns)"
      by (simp add: hr_check_data_privacy_def Let_def)
    from hr_scan_fold[OF this] show "\<exists>entry \<in> set hr_patterns. finding_type f = fst entry \<and>
        finding_samples f = map mask_sensitive_data (take 3 (re_findall (snd entry) text))"
      by auto
  qed
  have e: "mask_sensitive_data ''john@example.com'' = ''jo'' @ replicate 12 (CHR ''*'') @ ''om''"
    by code_simp
  have m: "length (mask_sensitive_data d) = length d
   \<and> (4 < length d \<longrightarrow> mask_sensitive_data d
          = take 2 d @ replicate (length d - 4) (CHR ''*'') @ drop (length d - 2) d)
   \<and> (length d \<le> 4 \<longrightarrow> mask_sensitive_data d = replicate (length d) (CHR ''*''))"
    by (simp add: mask_length) (simp add: mask_sensitive_data_def last_n_def)
  have r: "\<forall>p \<in> set (pii_detected (fst (check_data_privacy now text st))).
        \<exists>entry \<in> set pii_patterns. pi_type p = fst entry \<and>
          pi_matches p = take 5 (re_findall (snd entry) text)"
    unfolding sdk_reports_raw by force
  show ?thesis
    using a e m r sdk_reports_raw by blast
qed

theorem masked_samples_witness:
  "findings (hr_check_data_privacy ''mail john@example.com'')
     = [\<lparr>finding_type = ''email'', finding_count = 1, finding_samples = [''jo************om'']\<rparr>]
   \<and> (\<exists>entry \<in> set hr_patterns. ''email'' = fst entry \<and>
        [''jo************om''] = map mask_sensitive_data (take 3 (re_findall (snd entry) ''mail john@example.com'')))
   \<and> length ''john'' \<le> 4 \<and> mask_sensitive_data ''john'' = ''****''
   \<and> 4 < length ''12345'' \<and> mask_sensitive_data ''12345'' = ''12*45''
   \<and> pii_detected (fst (check_data_privacy 0 ''mail john@example.com'' init))
       = [\<lparr>pi_type = ''email'', pi_count = 1, pi_matches = [''john@example.com''], pi_severity = ''medium''\<rparr>]
   \<and> (\<exists>entry \<in> set pii_patterns. ''email'' = fst entry \<and>
        [''john@example.com''] = take 5 (re_findall (snd entry) ''mail john@example.com''))"
proof -
  have 1: "findings (hr_check_data_privacy ''mail john@example.com'')
     = [\<lparr>finding_type = ''email'', finding_count = 1, finding_samples = [''jo************om'']\<rparr>]"
    by code_simp
  have 2: "pii_detected (fst (check_data_privacy 0 ''mail john@example.com'' init))
       = [\<lparr>pi_type = ''email'', pi_count = 1, pi_matches = [''john@example.com''], pi_severity = ''medium''\<rparr>]"
    by code_simp
  have t1: "\<forall>p \<in> set (pii_detected (fst (check_data_privacy 0 ''mail john@example.com'' init))).
        \<exists>entry \<in> set pii_patterns. pi_type p = fst entry \<and>
          pi_matches p = take 5 (re_findall (snd entry) ''mail john@example.com'')"
    using masked_samples[of "''mail john@example.com''" "''john''" 0 init] by blast
  have t2: "\<forall>f \<in> set (findings (hr_check_data_privacy ''mail john@example.com'')).
      \<exists>entry \<in> set hr_patterns. finding_type f = fst entry \<and>
        finding_samples f = map mask_sensitive_data (take 3 (re_findall (snd entry) ''mail john@example.com''))"
    using masked_samples[of "''mail john@example.com''" "''john''" 0 init] by blast
  have t3: "mask_sensitive_data ''john'' = ''****''"
    using masked_samples[of "''mail john@example.com''" "''john''" 0 init] by simp
  have t4: "mask_sensitive_data ''12345'' = ''12*45''"
    using masked_samples[of "''mail john@example.com''" "''12345''" 0 init] by simp
  show ?thesis
    using 1 2 t1 t2 t3 t4 by simp
qed

text \<open>
  The SDK monitor's \<open>check_data_privacy\<close> has no masking step: the entry it reports
  for \<open>john@example.com\<close> carries the address itself.
\<close>

theorem raw_matches_counterexample:
  "pii_detected (fst (check_data_privacy 0 ''john@example.com'' init))
     = [\<lparr>pi_type = ''email'', pi_count = 1, pi_matches = [''john@example.com''], pi_severity = ''medium''\<rparr>]
   \<and> mask_sensitive_data ''john@example.com'' \<noteq> ''john@example.com''"
  by code_simp

section \<open>Threat analysis\<close>

lemma check_pattern_fold:
  "foldl (check_pattern c t) (acc, sev) ps =
     (acc @ map (\<lambda>p. threat_of (t, p)) (filter (\<lambda>p. re_search p c) ps),
      foldl update_severity sev (map (\<lambda>p. get_threat_severity t) (filter (\<lambda>p. re_search p c) ps)))"
  by (induction ps arbitrary: acc sev) (simp_all add: check_pattern_def threat_of_def Let_def)

lemma check_type_fold:
  "foldl (check_threat_type c) (acc, sev) tps =
     (acc @ map threat_of (filter (\<lambda>rule. re_search (snd rule) c)
                             (concat (map (\<lambda>entry. map (Pair (fst entry)) (snd entry)) tps))),
      foldl update_severity sev
        (map (\<lambda>rule. get_threat_severity (fst rule))
          (filter (\<lambda>rule. re_search (snd rule) c)
             (concat (map (\<lambda>entry. map (Pair (fst entry)) (snd entry)) tps)))))"
proof (induction tps arbitrary: acc sev)
  case Nil
  then show ?case by simp
next
  case (Cons e tps)
  have step: "check_threat_type c (acc, sev) e =
     (acc @ map (\<lambda>p. threat_of (fst e, p)) (filter (\<lambda>p. re_search p c) (snd e)),
      foldl update_severity sev
        (map (\<lambda>p. get_threat_severity (fst e)) (filter (\<lambda>p. re_search p c) (snd e))))"
    by (simp add: check_threat_type_def check_pattern_fold)
  show ?case
    by (simp add: step Cons.IH filter_map comp_def)
qed

lemma scan_threats_eq:
  "scan_threats c = (map threat_of (matched_rules c),
                     foldl update_severity ''low'' (map ti_severity (map threat_of (matched_rules c))))"
  by (simp add: scan_threats_def check_type_fold matched_rules_def threat_rules_def
      threat_of_def comp_def)

lemma get_threat_severity_names: "get_threat_severity t \<in> severity_names"
  by (simp add: get_threat_severity_def severity_names_def)

lemma update_severity_rank:
  "sev \<in> severity_names \<Longrightarrow> found \<in> severity_names \<Longrightarrow>
   update_severity sev found \<in> severity_names \<and>
   spec_severity_rank (update_severity sev found) = max (spec_severity_rank sev) (spec_severity_rank found)"
  by (auto simp: severity_names_def update_severity_def spec_severity_rank_def)

lemma fold_severity_rank:
  "sev \<in> severity_names \<Longrightarrow> set xs \<subseteq> severity_names \<Longrightarrow>
   foldl update_severity sev xs \<in> severity_names \<and>
   spec_severity_rank (foldl update_severity sev xs)
     = Max (insert (spec_severity_rank sev) (spec_severity_rank ` set xs))"
proof (induction xs arbitrary: sev)
  case Nil
  then show ?case by simp
next
  case (Cons x xs)
  from Cons.prems have x: "x \<in> severity_names" and xs: "set xs \<subseteq> severity_names" by auto
  from update_severity_rank[OF Cons.prems(1) x]
  have u: "update_severity sev x \<in> severity_names"
    and r: "spec_severity_rank (update_severity sev x) = max (spec_severity_rank sev) (spec_severity_rank x)"
    by auto
  from Cons.IH[OF u xs] have
    "foldl update_severity (update_severity sev x) xs \<in> severity_names"
    and m: "spec_severity_rank (foldl update_severity (update_severity sev x) xs)
      = Max (insert (spec_severity_rank (update_severity sev x)) (spec_severity_rank ` set xs))"
    by auto
  moreover have "Max (insert (spec_severity_rank (update_severity sev x)) (spec_severity_rank ` set xs))
     = Max (insert (spec_severity_rank sev) (spec_severity_rank ` set (x # xs)))"
  proof (cases "xs = []")
    case True
    then show ?thesis by (simp add: r max.commute)
  next
    case False
    then show ?thesis by (simp add: r max.assoc max.left_commute max.commute)
  qed
  ultimately show ?case by simp
qed

text \<open>
  Claim C4. The threats reported by \<open>analyze_request_security\<close> are the entries of
  the matching rules; the overall severity is one of the four severity names and its
  rank is the greatest rank among the severities of the reported threats, with the
  rank of \<open>low\<close> as the floor, so it is \<open>low\<close> when nothing matches; \<open>safe\<close> holds
  exactly when \<open>threat_count\<close> is 0.
\<close>

theorem severity_is_maximum:
  "let r = fst (analyze_request_security to_str now operation rd st) in
     threats_detected r = map threat_of (matched_rules (content_of to_str rd))
   \<and> severity r \<in> severity_names
   \<and> spec_severity_rank (severity r)
        = Max (insert (spec_severity_rank ''low'') (spec_severity_rank ` ti_severity ` set (threats_detected r)))
   \<and> (threats_detected r = [] \<longrightarrow> severity r = ''low'')
   \<and> threat_count r = length (threats_detected r)
   \<and> safe r = (threat_count r = 0)"
proof -
  let ?c = "content_of to_str rd"
  let ?infos = "map threat_of (matched_rules ?c)"
  have low: "''low'' \<in> severity_names" by (simp add: severity_names_def)
  have sub: "set (map ti_severity ?infos) \<subseteq> severity_names"
    by (auto simp: threat_of_def get_threat_severity_names)
  from fold_severity_rank[OF low sub]
  have "foldl update_severity ''low'' (map ti_severity ?infos) \<in> severity_names"
    and "spec_severity_rank (foldl update_severity ''low'' (map ti_severity ?infos))
         = Max (insert (spec_severity_rank ''low'') (spec_severity_rank ` ti_severity ` set ?infos))"
    by (auto simp: image_image)
  then show ?thesis
    by (simp add: analyze_request_security_def Let_def scan_threats_eq)
qed

theorem severity_is_maximum_witness:
  "threats_detected (fst (analyze_request_security (\<lambda>v. v) 0 ''test'' [''content'' \<mapsto> ''What is the weather today?''] init)) = []
   \<and> severity (fst (analyze_request_security (\<lambda>v. v) 0 ''test'' [''content'' \<mapsto> ''What is the weather today?''] init)) = ''low''
   \<and> safe (fst (analyze_request_security (\<lambda>v. v) 0 ''test'' [''content'' \<mapsto> ''What is the weather today?''] init))"
proof -
  have m: "matched_rules ''What is the weather today?'' = []"
    by code_simp
  have c: "content_of (\<lambda>v. v) [''content'' \<mapsto> ''What is the weather today?''] = ''What is the weather today?''"
    by (simp add: content_of_def)
  show ?thesis
    using severity_is_maximum[of "\<lambda>v. v" 0 "''test''" "[''content'' \<mapsto> ''What is the weather today?'']" init]
    by (simp add: Let_def m c)
qed

lemma analyze_result:
  "fst (analyze_request_security to_str now operation rd st) =
     \<lparr>threats_detected = fst (scan_threats (content_of to_str rd)),
      threat_count = length (fst (scan_threats (content_of to_str rd))),
      severity = snd (scan_threats (content_of to_str rd)),
      safe = (length (fst (scan_threats (content_of to_str rd))) = 0)\<rparr>"
  by (simp add: analyze_request_security_def Let_def split: prod.splits)

lemma content_of_other_key:
  "k \<noteq> ''content'' \<Longrightarrow> content_of to_str (rd(k \<mapsto> v)) = content_of to_str rd"
  by (simp add: content_of_def)

text \<open>
  Claim C10. Two request dictionaries whose \<open>'content'\<close> entries convert to the
  same string (a missing entry counting as the empty string) give the same
  \<open>threats_detected\<close>, \<open>threat_count\<close>, \<open>severity\<close> and \<open>safe\<close>, whatever the
  operation name, the clock and the monitor state are; and storing a value under any
  other key does not change the result of the analysis.
\<close>

theorem analysis_depends_on_content_only:
  "(content_of to_str rd1 = content_of to_str rd2 \<longrightarrow>
      threats_detected (fst (analyze_request_security to_str now1 op1 rd1 st1))
        = threats_detected (fst (analyze_request_security to_str now2 op2 rd2 st2))
    \<and> threat_count (fst (analyze_request_security to_str now1 op1 rd1 st1))
        = threat_count (fst (analyze_request_security to_str now2 op2 rd2 st2))
    \<and> severity (fst (analyze_request_security to_str now1 op1 rd1 st1))
        = severity (fst (analyze_request_security to_str now2 op2 rd2 st2))
    \<and> safe (fst (analyze_request_security to_str now1 op1 rd1 st1))
        = safe (fst (analyze_request_security to_str now2 op2 rd2 st2)))
   \<and> (k \<noteq> ''content'' \<longrightarrow>
        fst (analyze_request_security to_str now1 op1 (rd1(k \<mapsto> v)) st1)
          = fst (analyze_request_security to_str now1 op1 rd1 st1))"
  by (simp add: analyze_result content_of_other_key)

theorem analysis_depends_on_content_only_witness:
  "content_of (\<lambda>v. v) [''content'' \<mapsto> ''hello'', ''note'' \<mapsto> ''x; DROP TABLE users''] = content_of (\<lambda>v. v) [''content'' \<mapsto> ''hello'']
   \<and> ''note'' \<noteq> ''content''
   \<and> threats_detected (fst (analyze_request_security (\<lambda>v. v) 0 ''a'' [''content'' \<mapsto> ''hello'', ''note'' \<mapsto> ''x; DROP TABLE users''] init))
       = threats_detected (fst (analyze_request_security (\<lambda>v. v) 1 ''b'' [''content'' \<mapsto> ''hello''] init))
   \<and> safe (fst (analyze_request_security (\<lambda>v. v) 0 ''a'' [''content'' \<mapsto> ''hello'', ''note'' \<mapsto> ''x; DROP TABLE users''] init))
       = safe (fst (analyze_request_security (\<lambda>v. v) 1 ''b'' [''content'' \<mapsto> ''hello''] init))
   \<and> fst (analyze_request_security (\<lambda>v. v) 0 ''a'' [''content'' \<mapsto> ''hello'', ''note'' \<mapsto> ''x; DROP TABLE users''] init)
       = fst (analyze_request_security (\<lambda>v. v) 0 ''a'' [''content'' \<mapsto> ''hello''] init)"
proof -
  have c: "content_of (\<lambda>v. v) [''content'' \<mapsto> ''hello'', ''note'' \<mapsto> ''x; DROP TABLE users''] = content_of (\<lambda>v. v) [''content'' \<mapsto> ''hello'']"
    by (simp add: content_of_def)
  have k: "''note'' \<noteq> ''content''" by simp
  show ?thesis
    using c k analysis_depends_on_content_only[of "\<lambda>v. v"
        "[''content'' \<mapsto> ''hello'', ''note'' \<mapsto> ''x; DROP TABLE users'']" "[''content'' \<mapsto> ''hello'']"
        0 "''a''" init 1 "''b''" init "''note''" "''x; DROP TABLE users''"]
      analysis_depends_on_content_only[of "\<lambda>v. v"
        "[''content'' \<mapsto> ''hello'']" "[''content'' \<mapsto> ''hello'']"
        0 "''a''" init 0 "''a''" init "''note''" "''x; DROP TABLE users''"]
    by simp
qed

section \<open>Privacy check\<close>

lemma privacy_result:
  "fst (check_data_privacy now text st) =
    (let detected = foldl (scan_pii text) [] pii_patterns;
         status_sev = (if list_ex (\<lambda>pii. pi_severity pii \<in> {''high'', ''critical''}) detected
             then (''non_compliant'', ''high'')
             else if detected \<noteq> [] then (''warning'', ''medium'')
             else (''compliant'', ''low''))
     in \<lparr>pii_detected = detected,
           pii_types_count = length detected,
           total_pii_instances = sum_list (map pi_count detected),
           compliance_status = fst status_sev,
           privacy_severity = snd status_sev,
           privacy_safe = (length detected = 0)\<rparr>)"
  by (simp add: check_data_privacy_def Let_def split: prod.splits)

text \<open>
  Claim C7. The compliance status returned by \<open>check_data_privacy\<close> is
  \<open>non_compliant\<close> if some detected entry has severity \<open>high\<close> or \<open>critical\<close>,
  otherwise \<open>warning\<close> if some entry was detected, otherwise \<open>compliant\<close>; the
  overall severity is \<open>high\<close>, \<open>medium\<close>, \<open>low\<close> for the three statuses in turn.
\<close>

theorem compliance_status_derivation:
  "let r = fst (check_data_privacy now text st) in
     compliance_status r =
       (if \<exists>p \<in> set (pii_detected r). pi_severity p = ''high'' \<or> pi_severity p = ''critical''
        then ''non_compliant''
        else if pii_detected r \<noteq> [] then ''warning'' else ''compliant'')
   \<and> privacy_severity r =
       (if compliance_status r = ''non_compliant'' then ''high''
        else if compliance_status r = ''warning'' then ''medium'' else ''low'')"
  by (simp add: privacy_result Let_def list_ex_iff)

theorem compliance_status_derivation_witness:
  "pii_detected (fst (check_data_privacy 0 ''My SSN is 123-45-6789 and email is a@b.com'' init))
     = [\<lparr>pi_type = ''email'', pi_count = 1, pi_matches = [''a@b.com''], pi_severity = ''medium''\<rparr>,
        \<lparr>pi_type = ''ssn'', pi_count = 1, pi_matches = [''123-45-6789''], pi_severity = ''critical''\<rparr>]
   \<and> compliance_status (fst (check_data_privacy 0 ''My SSN is 123-45-6789 and email is a@b.com'' init)) = ''non_compliant''
   \<and> privacy_severity (fst (check_data_privacy 0 ''My SSN is 123-45-6789 and email is a@b.com'' init)) = ''high''"
proof -
  have d: "pii_detected (fst (check_data_privacy 0 ''My SSN is 123-45-6789 and email is a@b.com'' init))
     = [\<lparr>pi_type = ''email'', pi_count = 1, pi_matches = [''a@b.com''], pi_severity = ''medium''\<rparr>,
        \<lparr>pi_type = ''ssn'', pi_count = 1, pi_matches = [''123-45-6789''], pi_severity = ''critical''\<rparr>]"
    by code_simp
  show ?thesis
    using d compliance_status_derivation[of 0 "''My SSN is 123-45-6789 and email is a@b.com''" init]
    by (simp add: Let_def)
qed

section \<open>Event logs\<close>

lemma last_n_short: "length xs \<le> n \<Longrightarrow> last_n n xs = xs"
  by (simp add: last_n_def)

lemma length_last_n: "length (last_n n xs) = min n (length xs)"
  by (simp add: last_n_def)

lemma last_n_append: "last_n n (last_n n xs @ ys) = last_n n (xs @ ys)"
  by (cases "length xs \<le> n") (simp_all add: last_n_def add.commute)

lemma last_last_n: "0 < n \<Longrightarrow> last (last_n n (xs @ [x])) = x"
  by (simp add: last_n_def)

lemma log_compliance_event_logs:
  "compliance_logs (log_compliance_event now ctype status details md st) =
     last_n 1000 (compliance_logs st @
       [\<lparr>ce_id = length (compliance_logs st) + 1, ce_compliance_type = ctype, ce_status = status,
         ce_details = details, ce_metadata = or_empty md, ce_timestamp = now\<rparr>])"
  by (simp add: log_compliance_event_def Let_def last_n_def)

lemma log_compliance_event_frame:
  "security_events (log_compliance_event now ctype status details md st) = security_events st"
  "event_counts (log_compliance_event now ctype status details md st) = event_counts st"
  "severity_counts (log_compliance_event now ctype status details md st) = severity_counts st"
  by (simp_all add: log_compliance_event_def Let_def)

lemma log_security_event_events:
  "security_events (log_security_event now etype description sev md st) =
     last_n 1000 (security_events st @
       [\<lparr>se_id = length (security_events st) + 1, se_event_type = etype, se_description = description,
         se_severity = sev, se_metadata = or_empty md, se_timestamp = now\<rparr>])"
  by (simp add: log_security_event_def Let_def last_n_def)

lemma log_security_event_frame:
  "compliance_logs (log_security_event now etype description sev md st) = compliance_logs st"
  by (simp add: log_security_event_def Let_def)

lemma run_call_security:
  "security_events (run_call c st) =
     (if is_security c then last_n 1000 (security_events st @ [last (security_events (run_call c st))])
      else security_events st)"
  by (cases c) (simp_all add: log_security_event_events log_compliance_event_frame last_last_n)

lemma run_call_compliance:
  "compliance_logs (run_call c st) =
     (if is_security c then compliance_logs st
      else last_n 1000 (compliance_logs st @ [last (compliance_logs (run_call c st))]))"
  by (cases c) (simp_all add: log_compliance_event_logs log_security_event_frame last_last_n)

lemma run_call_security_length:
  "length (security_events st) \<le> 1000 \<Longrightarrow> length (security_events (run_call c st)) \<le> 1000"
  by (cases c) (simp_all add: log_security_event_events log_compliance_event_frame length_last_n)

lemma run_call_compliance_length:
  "length (compliance_logs st) \<le> 1000 \<Longrightarrow> length (compliance_logs (run_call c st)) \<le> 1000"
  by (cases c) (simp_all add: log_compliance_event_logs log_security_event_frame length_last_n)

lemma run_security:
  "length (security_events st) \<le> 1000 \<Longrightarrow>
   security_events (run cs st) = last_n 1000 (security_events st @ appended_security cs st)"
proof (induction cs arbitrary: st)
  case Nil
  then show ?case by (simp add: last_n_short)
next
  case (Cons c cs)
  have "security_events (run (c # cs) st)
      = last_n 1000 (security_events (run_call c st) @ appended_security cs (run_call c st))"
    using Cons.IH[OF run_call_security_length[OF Cons.prems]] by simp
  also have "\<dots> = last_n 1000 (security_events st @ appended_security (c # cs) st)"
  proof (cases "is_security c")
    case True
    then have "security_events (run_call c st)
        = last_n 1000 (security_events st @ [last (security_events (run_call c st))])"
      using run_call_security[of c st] by simp
    then have "last_n 1000 (security_events (run_call c st) @ appended_security cs (run_call c st))
       = last_n 1000 ((security_events st @ [last (security_events (run_call c st))])
                        @ appended_security cs (run_call c st))"
      using last_n_append[of 1000 "security_events st @ [last (security_events (run_call c st))]"
          "appended_security cs (run_call c st)"] by simp
    with True show ?thesis by simp
  next
    case False
    then have "security_events (run_call c st) = security_events st"
      using run_call_security[of c st] by simp
    with False show ?thesis by simp
  qed
  finally show ?case .
qed

lemma run_compliance:
  "length (compliance_logs st) \<le> 1000 \<Longrightarrow>
   compliance_logs (run cs st) = last_n 1000 (compliance_logs st @ appended_compliance cs st)"
proof (induction cs arbitrary: st)
  case Nil
  then show ?case by (simp add: last_n_short)
next
  case (Cons c cs)
  have "compliance_logs (run (c # cs) st)
      = last_n 1000 (compliance_logs (run_call c st) @ appended_compliance cs (run_call c st))"
    using Cons.IH[OF run_call_compliance_length[OF Cons.prems]] by simp
  also have "\<dots> = last_n 1000 (compliance_logs st @ appended_compliance (c # cs) st)"
  proof (cases "is_security c")
    case False
    then have "compliance_logs (run_call c st)
        = last_n 1000 (compliance_logs st @ [last (compliance_logs (run_call c st))])"
      using run_call_compliance[of c st] by simp
    then have "last_n 1000 (compliance_logs (run_call c st) @ appended_compliance cs (run_call c st))
       = last_n 1000 ((compliance_logs st @ [last (compliance_logs (run_call c st))])
                        @ appended_compliance cs (run_call c st))"
      using last_n_append[of 1000 "compliance_logs st @ [last (compliance_logs (run_call c st))]"
          "appended_compliance cs (run_call c st)"] by simp
    with False show ?thesis by simp
  next
    case True
    then have "compliance_logs (run_call c st) = compliance_logs st"
      using run_call_compliance[of c st] by simp
    with True show ?thesis by simp
  qed
  finally show ?case .
qed

lemma length_appended_security:
  "length (appended_security cs st) = length (filter is_security cs)"
  by (induction cs arbitrary: st) simp_all

lemma length_appended_compliance:
  "length (appended_compliance cs st) = length (filter (\<lambda>c. \<not> is_security c) cs)"
  by (induction cs arbitrary: st) simp_all

text \<open>
  Claim C3. After a call of \<open>log_security_event\<close> or \<open>log_compliance_event\<close>, from
  any state, the log it appends to has at most 1000 entries and is the last 1000
  entries of the old log followed by the new event: what is dropped is dropped from
  the front. Both operations are total functions on monitor states, so the overflow
  gives no error. After any sequence of calls from the initial state each log is the
  last 1000 of the events appended to it; when 1050 events were appended to a log,
  it has exactly 1000 entries, the appended events without the first 50.
\<close>

theorem log_capacity:
  "length (security_events (log_security_event now etype description sev md st)) \<le> 1000
   \<and> length (compliance_logs (log_compliance_event now ctype status details md st)) \<le> 1000
   \<and> (\<exists>e. security_events (log_security_event now etype description sev md st)
             = last_n 1000 (security_events st @ [e]))
   \<and> (\<exists>e. compliance_logs (log_compliance_event now ctype status details md st)
             = last_n 1000 (compliance_logs st @ [e]))
   \<and> length (security_events (run cs init)) \<le> 1000
   \<and> length (compliance_logs (run cs init)) \<le> 1000
   \<and> security_events (run cs init) = last_n 1000 (appended_security cs init)
   \<and> compliance_logs (run cs init) = last_n 1000 (appended_compliance cs init)
   \<and> (length (filter is_security cs) = 1050 \<longrightarrow>
        length (appended_security cs init) = 1050
        \<and> length (security_events (run cs init)) = 1000
        \<and> security_events (run cs init) = drop 50 (appended_security cs init))
   \<and> (length (filter (\<lambda>c. \<not> is_security c) cs) = 1050 \<longrightarrow>
        length (appended_compliance cs init) = 1050
        \<and> length (compliance_logs (run cs init)) = 1000
        \<and> compliance_logs (run cs init) = drop 50 (appended_compliance cs init))"
proof -
  have i: "security_events init = []" "compliance_logs init = []"
    by (simp_all add: init_def)
  have s: "security_events (run cs init) = last_n 1000 (appended_security cs init)"
    using run_security[of init cs] by (simp add: i)
  have c: "compliance_logs (run cs init) = last_n 1000 (appended_compliance cs init)"
    using run_compliance[of init cs] by (simp add: i)
  have s50: "length (filter is_security cs) = 1050 \<longrightarrow>
        last_n 1000 (appended_security cs init) = drop 50 (appended_security cs init)"
    by (simp add: last_n_def length_appended_security)
  have c50: "length (filter (\<lambda>c. \<not> is_security c) cs) = 1050 \<longrightarrow>
        last_n 1000 (appended_compliance cs init) = drop 50 (appended_compliance cs init)"
    by (simp add: last_n_def length_appended_compliance)
  have one: "length (security_events (log_security_event now etype description sev md st)) \<le> 1000"
    "length (compliance_logs (log_compliance_event now ctype status details md st)) \<le> 1000"
    by (simp_all add: log_security_event_events log_compliance_event_logs length_last_n)
  have ex: "\<exists>e. security_events (log_security_event now etype description sev md st)
             = last_n 1000 (security_events st @ [e])"
    "\<exists>e. compliance_logs (log_compliance_event now ctype status details md st)
             = last_n 1000 (compliance_logs st @ [e])"
    by (auto simp: log_security_event_events log_compliance_event_logs)
  show ?thesis
    using one ex s50 c50
    by (simp add: s c length_last_n length_appended_security length_appended_compliance)
qed

theorem log_capacity_witness:
  "length (filter is_security (replicate 1050 (Log_security 0 ''e'' ''d'' ''low'' None))) = 1050
   \<and> length (security_events (run (replicate 1050 (Log_security 0 ''e'' ''d'' ''low'' None)) init)) = 1000
   \<and> security_events (run (replicate 1050 (Log_security 0 ''e'' ''d'' ''low'' None)) init)
       = drop 50 (appended_security (replicate 1050 (Log_security 0 ''e'' ''d'' ''low'' None)) init)
   \<and> length (filter (\<lambda>c. \<not> is_security c) (replicate 1050 (Log_compliance 0 ''t'' ''compliant'' ''d'' None))) = 1050
   \<and> length (compliance_logs (run (replicate 1050 (Log_compliance 0 ''t'' ''compliant'' ''d'' None)) init)) = 1000
   \<and> compliance_logs (run (replicate 1050 (Log_compliance 0 ''t'' ''compliant'' ''d'' None)) init)
       = drop 50 (appended_compliance (replicate 1050 (Log_compliance 0 ''t'' ''compliant'' ''d'' None)) init)"
proof -
  have f: "length (filter is_security (replicate 1050 (Log_security 0 ''e'' ''d'' ''low'' None))) = 1050"
    "length (filter (\<lambda>c. \<not> is_security c) (replicate 1050 (Log_compliance 0 ''t'' ''compliant'' ''d'' None))) = 1050"
    by simp_all
  from f(1) log_capacity[of 0 "''e''" "''d''" "''low''" None init "''t''" "''compliant''" "''d''"
      "replicate 1050 (Log_security 0 ''e'' ''d'' ''low'' None)"]
  have a: "length (security_events (run (replicate 1050 (Log_security 0 ''e'' ''d'' ''low'' None)) init)) = 1000
   \<and> security_events (run (replicate 1050 (Log_security 0 ''e'' ''d'' ''low'' None)) init)
       = drop 50 (appended_security (replicate 1050 (Log_security 0 ''e'' ''d'' ''low'' None)) init)"
    by blast
  from f(2) log_capacity[of 0 "''e''" "''d''" "''low''" None init "''t''" "''compliant''" "''d''"
      "replicate 1050 (Log_compliance 0 ''t'' ''compliant'' ''d'' None)"]
  have b: "length (compliance_logs (run (replicate 1050 (Log_compliance 0 ''t'' ''compliant'' ''d'' None)) init)) = 1000
   \<and> compliance_logs (run (replicate 1050 (Log_compliance 0 ''t'' ''compliant'' ''d'' None)) init)
       = drop 50 (appended_compliance (replicate 1050 (Log_compliance 0 ''t'' ''compliant'' ''d'' None)) init)"
    by blast
  show ?thesis using f a b by blast
qed


lemma run_call_security_id:
  "is_security c \<Longrightarrow> se_id (last (security_events (run_call c st))) = length (security_events st) + 1"
  by (cases c) (simp_all add: log_security_event_events last_last_n)

lemma run_call_compliance_id:
  "\<not> is_security c \<Longrightarrow> ce_id (last (compliance_logs (run_call c st))) = length (compliance_logs st) + 1"
  by (cases c) (simp_all add: log_compliance_event_logs last_last_n)

lemma run_call_security_grow:
  "is_security c \<Longrightarrow> length (security_events (run_call c st)) = min 1000 (length (security_events st) + 1)"
  by (cases c) (simp_all add: log_security_event_events length_last_n)

lemma run_call_compliance_grow:
  "\<not> is_security c \<Longrightarrow> length (compliance_logs (run_call c st)) = min 1000 (length (compliance_logs st) + 1)"
  by (cases c) (simp_all add: log_compliance_event_logs length_last_n)

lemma upt_shift: "[0..<Suc n] = 0 # map Suc [0..<n]"
  by (simp add: upt_conv_Cons map_Suc_upt del: upt_Suc)

lemma appended_security_ids:
  "is_security c \<Longrightarrow> length (security_events st) \<le> 1000 \<Longrightarrow>
   map se_id (appended_security (replicate n c) st)
     = map (\<lambda>k. min (length (security_events st) + k) 1000 + 1) [0..<n]"
proof (induction n arbitrary: st)
  case 0
  show ?case by simp
next
  case (Suc n)
  have len: "length (security_events (run_call c st)) = min 1000 (length (security_events st) + 1)"
    by (rule run_call_security_grow[OF Suc.prems(1)])
  then have le: "length (security_events (run_call c st)) \<le> 1000" by simp
  have "map se_id (appended_security (replicate (Suc n) c) st)
      = (length (security_events st) + 1) # map se_id (appended_security (replicate n c) (run_call c st))"
    using Suc.prems(1) by (simp add: run_call_security_id)
  also have "map se_id (appended_security (replicate n c) (run_call c st))
      = map (\<lambda>k. min (min 1000 (length (security_events st) + 1) + k) 1000 + 1) [0..<n]"
    using Suc.IH[OF Suc.prems(1) le] by (simp only: len)
  also have "\<dots> = map (\<lambda>k. min (length (security_events st) + Suc k) 1000 + 1) [0..<n]"
    by (rule map_cong) auto
  finally show ?case
    using Suc.prems(2) by (simp only: upt_shift) (simp add: comp_def)
qed

lemma appended_compliance_ids:
  "\<not> is_security c \<Longrightarrow> length (compliance_logs st) \<le> 1000 \<Longrightarrow>
   map ce_id (appended_compliance (replicate n c) st)
     = map (\<lambda>k. min (length (compliance_logs st) + k) 1000 + 1) [0..<n]"
proof (induction n arbitrary: st)
  case 0
  show ?case by simp
next
  case (Suc n)
  have len: "length (compliance_logs (run_call c st)) = min 1000 (length (compliance_logs st) + 1)"
    by (rule run_call_compliance_grow[OF Suc.prems(1)])
  then have le: "length (compliance_logs (run_call c st)) \<le> 1000" by simp
  have "map ce_id (appended_compliance (replicate (Suc n) c) st)
      = (length (compliance_logs st) + 1) # map ce_id (appended_compliance (replicate n c) (run_call c st))"
    using Suc.prems(1) by (simp add: run_call_compliance_id)
  also have "map ce_id (appended_compliance (replicate n c) (run_call c st))
      = map (\<lambda>k. min (min 1000 (length (compliance_logs st) + 1) + k) 1000 + 1) [0..<n]"
    using Suc.IH[OF Suc.prems(1) le] by (simp only: len)
  also have "\<dots> = map (\<lambda>k. min (length (compliance_logs st) + Suc k) 1000 + 1) [0..<n]"
    by (rule map_cong) auto
  finally show ?case
    using Suc.prems(2) by (simp only: upt_shift) (simp add: comp_def)
qed

lemma last_n_last_n: "m \<le> n \<Longrightarrow> last_n m (last_n n xs) = last_n m xs"
proof -
  assume "m \<le> n"
  then have "length xs - (length xs - n + m) + (length xs - n) = length xs - m"
    by arith
  then show ?thesis by (simp add: last_n_def)
qed

lemma map_last_n: "map f (last_n n xs) = last_n n (map f xs)"
  by (simp add: last_n_def drop_map)

text \<open>
  Claim C2 fails on the code. The id of a new event is the length of its log plus 1,
  and the length stays 1000 once the log is full: from the initial state, the 1001st
  and the 1002nd event appended to a log both get the id 1001.
\<close>

theorem ids_repeat_after_eviction:
  "map se_id (last_n 2 (security_events (run (replicate 1002 (Log_security 0 ''e'' ''d'' ''low'' None)) init)))
     = [1001, 1001]
   \<and> map ce_id (last_n 2 (compliance_logs (run (replicate 1002 (Log_compliance 0 ''t'' ''compliant'' ''d'' None)) init)))
     = [1001, 1001]"
proof -
  have i: "security_events init = []" "compliance_logs init = []"
    by (simp_all add: init_def)
  have u: "[1000..<1002] = [1000, 1001]"
    by (simp add: upt_rec_numeral)
  have s: "map se_id (last_n 2 (security_events (run (replicate 1002 (Log_security 0 ''e'' ''d'' ''low'' None)) init)))
      = last_n 2 (map (\<lambda>k. min k 1000 + 1) [0..<1002])"
    using run_security[of init "replicate 1002 (Log_security 0 ''e'' ''d'' ''low'' None)"]
      appended_security_ids[of "Log_security 0 ''e'' ''d'' ''low'' None" init 1002]
    by (simp add: i last_n_last_n map_last_n)
  have c: "map ce_id (last_n 2 (compliance_logs (run (replicate 1002 (Log_compliance 0 ''t'' ''compliant'' ''d'' None)) init)))
      = last_n 2 (map (\<lambda>k. min k 1000 + 1) [0..<1002])"
    using run_compliance[of init "replicate 1002 (Log_compliance 0 ''t'' ''compliant'' ''d'' None)"]
      appended_compliance_ids[of "Log_compliance 0 ''t'' ''compliant'' ''d'' None" init 1002]
    by (simp add: i last_n_last_n map_last_n)
  have v: "last_n 2 (map (\<lambda>k. min k 1000 + 1) [0..<1002]) = [1001, 1001::nat]"
    by (simp add: last_n_def drop_map u)
  show ?thesis by (simp only: s c v)
qed

section \<open>Scores\<close>

lemma foldl_deduction:
  "foldl (\<lambda>d event. d + deduction (se_severity event)) a evs
     = a + sum_list (map (\<lambda>event. deduction (se_severity event)) evs)"
  by (induction evs arbitrary: a) simp_all

lemma deduction_nonneg: "0 \<le> deduction sev"
  by (simp add: deduction_def)

lemma sum_deduction_nonneg: "0 \<le> sum_list (map (\<lambda>event. deduction (se_severity event)) evs)"
  by (induction evs) (simp_all add: deduction_nonneg)

text \<open>
  Claim C8. When no security event has a timestamp later than 24 hours (86400
  seconds) before \<open>now\<close>, the security score is 100, and when no compliance event
  has one, the compliance score is 100, however many older events the logs hold. The
  security score is always 100 minus the sum of the deductions of the events in the
  window, clamped to the range from 0 to 100, with deductions of 20, 10, 5 and 1
  for critical, high, medium and low.
\<close>

theorem scores_over_window:
  "((\<forall>e \<in> set (security_events st). se_timestamp e \<le> now - 86400)
       \<longrightarrow> calculate_security_score now st = 100)
   \<and> ((\<forall>l \<in> set (compliance_logs st). ce_timestamp l \<le> now - 86400)
       \<longrightarrow> calculate_compliance_score round1 now st = 100)
   \<and> calculate_security_score now st
       = max 0 (min 100 (100 - sum_list (map (\<lambda>e. deduction (se_severity e))
                                  (filter (\<lambda>e. now - 86400 < se_timestamp e) (security_events st)))))
   \<and> deduction ''critical'' = 20 \<and> deduction ''high'' = 10
   \<and> deduction ''medium'' = 5 \<and> deduction ''low'' = 1"
proof -
  have s0: "(\<forall>e \<in> set (security_events st). se_timestamp e \<le> now - 86400)
       \<longrightarrow> filter (\<lambda>e. now - 86400 < se_timestamp e) (security_events st) = []"
    by (auto simp: filter_empty_conv)
  have c0: "(\<forall>l \<in> set (compliance_logs st). ce_timestamp l \<le> now - 86400)
       \<longrightarrow> filter (\<lambda>l. now - 86400 < ce_timestamp l) (compliance_logs st) = []"
    by (auto simp: filter_empty_conv)
  have f: "calculate_security_score now st
       = max 0 (min 100 (100 - sum_list (map (\<lambda>e. deduction (se_severity e))
                                  (filter (\<lambda>e. now - 86400 < se_timestamp e) (security_events st)))))"
    using sum_deduction_nonneg[of "filter (\<lambda>e. now - 86400 < se_timestamp e) (security_events st)"]
    by (simp add: calculate_security_score_def Let_def foldl_deduction)
  have c: "(\<forall>l \<in> set (compliance_logs st). ce_timestamp l \<le> now - 86400)
       \<longrightarrow> calculate_compliance_score round1 now st = 100"
    using c0 by (simp add: calculate_compliance_score_def Let_def)
  have d: "deduction ''critical'' = 20 \<and> deduction ''high'' = 10
   \<and> deduction ''medium'' = 5 \<and> deduction ''low'' = 1"
    by (simp add: deduction_def)
  show ?thesis
    using s0 c d f by simp
qed

theorem scores_over_window_witness:
  "list_all (\<lambda>e. se_timestamp e \<le> 100000 - 86400)
      (security_events (log_compliance_event 0 ''t'' ''non_compliant'' ''d'' None
                          (log_security_event 0 ''e'' ''d'' ''critical'' None init)))
   \<and> length (security_events (log_compliance_event 0 ''t'' ''non_compliant'' ''d'' None
                          (log_security_event 0 ''e'' ''d'' ''critical'' None init))) = 1
   \<and> list_all (\<lambda>l. ce_timestamp l \<le> 100000 - 86400)
      (compliance_logs (log_compliance_event 0 ''t'' ''non_compliant'' ''d'' None
                          (log_security_event 0 ''e'' ''d'' ''critical'' None init)))
   \<and> length (compliance_logs (log_compliance_event 0 ''t'' ''non_compliant'' ''d'' None
                          (log_security_event 0 ''e'' ''d'' ''critical'' None init))) = 1
   \<and> calculate_security_score 100000
        (log_compliance_event 0 ''t'' ''non_compliant'' ''d'' None
           (log_security_event 0 ''e'' ''d'' ''critical'' None init)) = 100
   \<and> calculate_compliance_score (\<lambda>x. x) 100000
        (log_compliance_event 0 ''t'' ''non_compliant'' ''d'' None
           (log_security_event 0 ''e'' ''d'' ''critical'' None init)) = 100"
proof -
  let ?st = "log_compliance_event 0 ''t'' ''non_compliant'' ''d'' None
               (log_security_event 0 ''e'' ''d'' ''critical'' None init)"
  have s: "security_events ?st = [\<lparr>se_id = 1, se_event_type = ''e'', se_description = ''d'',
             se_severity = ''critical'', se_metadata = [], se_timestamp = 0\<rparr>]"
    by (simp add: log_compliance_event_frame log_security_event_events init_def last_n_def or_empty_def)
  have c: "compliance_logs ?st = [\<lparr>ce_id = 1, ce_compliance_type = ''t'', ce_status = ''non_compliant'',
             ce_details = ''d'', ce_metadata = [], ce_timestamp = 0\<rparr>]"
    by (simp add: log_compliance_event_logs log_security_event_frame init_def last_n_def or_empty_def)
  show ?thesis
    using scores_over_window[of ?st 100000 "\<lambda>x. x"]
    by (simp add: s c)
qed

section \<open>Effects of the two analyses on the logs\<close>

lemma privacy_state:
  "snd (check_data_privacy now text st) =
     log_compliance_event now ''pii_detection'' (compliance_status (fst (check_data_privacy now text st)))
       (''Detected '' @ digits_of (pii_types_count (fst (check_data_privacy now text st))) @ '' types of PII in data'')
       (Some [(''pii_types'', MStrs (map pi_type (pii_detected (fst (check_data_privacy now text st))))),
              (''total_pii_count'', MNat (total_pii_instances (fst (check_data_privacy now text st)))),
              (''text_length'', MNat (length text))])
       st"
  by (simp add: check_data_privacy_def Let_def split: prod.splits)

lemma analyze_state:
  "snd (analyze_request_security to_str now operation rd st) =
     (if fst (scan_threats (content_of to_str rd)) \<noteq> []
      then log_security_event now ''threat_detection''
             (''Detected '' @ digits_of (length (fst (scan_threats (content_of to_str rd))))
                @ '' security threats in '' @ operation)
             (snd (scan_threats (content_of to_str rd)))
             (Some [(''operation'', MStr operation),
                    (''threats'', MThreats (fst (scan_threats (content_of to_str rd)))),
                    (''content_length'', MNat (length (content_of to_str rd)))])
             st
      else st)"
  by (simp add: analyze_request_security_def Let_def split: prod.splits)

text \<open>
  Claim C9. \<open>check_data_privacy\<close> appends one compliance event of type
  \<open>pii_detection\<close>, carrying the status and the aggregate counts of its result,
  whatever the outcome, and leaves the security log as it was.
  \<open>analyze_request_security\<close> leaves the compliance log as it was; when
  \<open>threat_count\<close> is positive it appends one security event of type
  \<open>threat_detection\<close> with the aggregated severity and the matches under
  \<open>'threats'\<close> in its metadata; when \<open>threat_count\<close> is 0 it leaves the whole
  monitor state unchanged. Appending keeps the last 1000 entries: below the cap the
  new log is the old one followed by the event.
\<close>

theorem log_effects:
  "(let r = fst (check_data_privacy now text st); st' = snd (check_data_privacy now text st) in
      (\<exists>e. compliance_logs st' = last_n 1000 (compliance_logs st @ [e])
          \<and> (length (compliance_logs st) < 1000 \<longrightarrow> compliance_logs st' = compliance_logs st @ [e])
          \<and> ce_compliance_type e = ''pii_detection''
          \<and> ce_status e = compliance_status r
          \<and> map_of (ce_metadata e) ''pii_types'' = Some (MStrs (map pi_type (pii_detected r)))
          \<and> map_of (ce_metadata e) ''total_pii_count'' = Some (MNat (total_pii_instances r)))
      \<and> security_events st' = security_events st)
   \<and> (let r = fst (analyze_request_security to_str now operation rd st);
           st' = snd (analyze_request_security to_str now operation rd st) in
      compliance_logs st' = compliance_logs st
      \<and> (0 < threat_count r \<longrightarrow>
           (\<exists>e. security_events st' = last_n 1000 (security_events st @ [e])
              \<and> (length (security_events st) < 1000 \<longrightarrow> security_events st' = security_events st @ [e])
              \<and> se_event_type e = ''threat_detection''
              \<and> se_severity e = severity r
              \<and> map_of (se_metadata e) ''threats'' = Some (MThreats (threats_detected r))))
      \<and> (threat_count r = 0 \<longrightarrow> st' = st))"
proof -
  let ?r = "fst (check_data_privacy now text st)"
  let ?e = "\<lparr>ce_id = length (compliance_logs st) + 1, ce_compliance_type = ''pii_detection'',
             ce_status = compliance_status ?r,
             ce_details = ''Detected '' @ digits_of (pii_types_count ?r) @ '' types of PII in data'',
             ce_metadata = [(''pii_types'', MStrs (map pi_type (pii_detected ?r))),
                            (''total_pii_count'', MNat (total_pii_instances ?r)),
                            (''text_length'', MNat (length text))],
             ce_timestamp = now\<rparr>"
  have p1: "compliance_logs (snd (check_data_privacy now text st)) = last_n 1000 (compliance_logs st @ [?e])"
    by (subst privacy_state) (simp add: log_compliance_event_logs or_empty_def)
  have p2: "length (compliance_logs st) < 1000 \<longrightarrow> last_n 1000 (compliance_logs st @ [?e]) = compliance_logs st @ [?e]"
    by (simp add: last_n_short)
  have p3: "security_events (snd (check_data_privacy now text st)) = security_events st"
    by (subst privacy_state) (simp add: log_compliance_event_frame)
  have P: "\<exists>e. compliance_logs (snd (check_data_privacy now text st)) = last_n 1000 (compliance_logs st @ [e])
          \<and> (length (compliance_logs st) < 1000 \<longrightarrow> compliance_logs (snd (check_data_privacy now text st)) = compliance_logs st @ [e])
          \<and> ce_compliance_type e = ''pii_detection''
          \<and> ce_status e = compliance_status ?r
          \<and> map_of (ce_metadata e) ''pii_types'' = Some (MStrs (map pi_type (pii_detected ?r)))
          \<and> map_of (ce_metadata e) ''total_pii_count'' = Some (MNat (total_pii_instances ?r))"
    by (rule exI[of _ ?e]) (use p1 p2 in simp)
  let ?a = "fst (analyze_request_security to_str now operation rd st)"
  let ?s = "snd (analyze_request_security to_str now operation rd st)"
  let ?f = "\<lparr>se_id = length (security_events st) + 1, se_event_type = ''threat_detection'',
             se_description = ''Detected '' @ digits_of (threat_count ?a) @ '' security threats in '' @ operation,
             se_severity = severity ?a,
             se_metadata = [(''operation'', MStr operation), (''threats'', MThreats (threats_detected ?a)),
                            (''content_length'', MNat (length (content_of to_str rd)))],
             se_timestamp = now\<rparr>"
  have a1: "compliance_logs ?s = compliance_logs st"
    by (simp add: analyze_state log_security_event_frame)
  have a2: "threat_count ?a = 0 \<longrightarrow> ?s = st"
    by (simp add: analyze_state analyze_result)
  have a3: "0 < threat_count ?a \<longrightarrow> security_events ?s = last_n 1000 (security_events st @ [?f])"
    by (simp add: analyze_state analyze_result log_security_event_events or_empty_def)
  have a4: "length (security_events st) < 1000 \<longrightarrow> last_n 1000 (security_events st @ [?f]) = security_events st @ [?f]"
    by (simp add: last_n_short)
  have A: "0 < threat_count ?a \<longrightarrow>
           (\<exists>e. security_events ?s = last_n 1000 (security_events st @ [e])
              \<and> (length (security_events st) < 1000 \<longrightarrow> security_events ?s = security_events st @ [e])
              \<and> se_event_type e = ''threat_detection''
              \<and> se_severity e = severity ?a
              \<and> map_of (se_metadata e) ''threats'' = Some (MThreats (threats_detected ?a)))"
  proof
    assume pos: "0 < threat_count ?a"
    show "\<exists>e. security_events ?s = last_n 1000 (security_events st @ [e])
              \<and> (length (security_events st) < 1000 \<longrightarrow> security_events ?s = security_events st @ [e])
              \<and> se_event_type e = ''threat_detection''
              \<and> se_severity e = severity ?a
              \<and> map_of (se_metadata e) ''threats'' = Some (MThreats (threats_detected ?a))"
      by (rule exI[of _ ?f]) (use pos a3 a4 in simp)
  qed
  show ?thesis
    unfolding Let_def using P p3 a1 a2 A by blast
qed

theorem log_effects_witness:
  "length (compliance_logs init) < 1000
   \<and> length (compliance_logs (snd (check_data_privacy 0 ''hello'' init))) = 1
   \<and> security_events (snd (check_data_privacy 0 ''hello'' init)) = []
   \<and> 0 < threat_count (fst (analyze_request_security (\<lambda>v. v) 0 ''t'' [''content'' \<mapsto> ''drop table x''] init))
   \<and> length (security_events (snd (analyze_request_security (\<lambda>v. v) 0 ''t'' [''content'' \<mapsto> ''drop table x''] init))) = 1
   \<and> threat_count (fst (analyze_request_security (\<lambda>v. v) 0 ''t'' [''content'' \<mapsto> ''hello''] init)) = 0
   \<and> snd (analyze_request_security (\<lambda>v. v) 0 ''t'' [''content'' \<mapsto> ''hello''] init) = init"
proof -
  have i: "compliance_logs init = []" "security_events init = []"
    by (simp_all add: init_def)
  have c1: "content_of (\<lambda>v. v) [''content'' \<mapsto> ''drop table x''] = ''drop table x''"
    and c2: "content_of (\<lambda>v. v) [''content'' \<mapsto> ''hello''] = ''hello''"
    by (simp_all add: content_of_def)
  have s1: "length (fst (scan_threats ''drop table x'')) = 1"
    by code_simp
  have s2: "fst (scan_threats ''hello'') = []"
    by code_simp
  have t1: "0 < threat_count (fst (analyze_request_security (\<lambda>v. v) 0 ''t'' [''content'' \<mapsto> ''drop table x''] init))"
    by (simp add: analyze_result c1 s1)
  have t2: "threat_count (fst (analyze_request_security (\<lambda>v. v) 0 ''t'' [''content'' \<mapsto> ''hello''] init)) = 0"
    by (simp add: analyze_result c2 s2)
  show ?thesis
    using t1 t2 log_effects[of 0 "''hello''" init "\<lambda>v. v" "''t''" "[''content'' \<mapsto> ''drop table x'']"]
      log_effects[of 0 "''hello''" init "\<lambda>v. v" "''t''" "[''content'' \<mapsto> ''hello'']"]
    by (auto simp: Let_def i)
qed

section \<open>What the patterns match\<close>

lemma to_lower_space: "to_lower c = CHR '' '' \<Longrightarrow> c = CHR '' ''"
  by (auto simp: to_lower_def in_range_def code_def split: if_splits dest!: arg_cong[where f="of_char :: char \<Rightarrow> nat"])

lemma is_space_blank: "is_space (CHR '' '')"
  by (simp add: is_space_def in_range_def code_def)

lemma rmatch_lit:
  "i < length s \<Longrightarrow> to_lower (s ! i) = to_lower c \<Longrightarrow> rmatch (lit c) True s i = [Suc i]"
  by (simp add: lit_def set_match_def)

lemma rmatch_cat_Cons:
  "j \<in> set (rmatch r ic s i) \<Longrightarrow> k \<in> set (rmatch (cat rs) ic s j) \<Longrightarrow> k \<in> set (rmatch (cat (r # rs)) ic s i)"
  by (auto simp: cat_def)

lemma rmatch_cat_Nil: "i \<in> set (rmatch (cat []) ic s i)"
  by (simp add: cat_def)

lemma rmatch_lits:
  "i + length w \<le> length s \<Longrightarrow> (\<forall>k < length w. to_lower (s ! (i + k)) = to_lower (w ! k)) \<Longrightarrow>
   i + length w \<in> set (rmatch (lits w) True s i)"
proof (induction w arbitrary: i)
  case Nil
  show ?case by (simp add: lits_def cat_def)
next
  case (Cons c w)
  have 1: "Suc i \<in> set (rmatch (lit c) True s i)"
    using Cons.prems rmatch_lit[of i s c] by force
  have "Suc i + length w \<in> set (rmatch (lits w) True s (Suc i))"
  proof (rule Cons.IH)
    show "Suc i + length w \<le> length s" using Cons.prems by simp
    show "\<forall>k<length w. to_lower (s ! (Suc i + k)) = to_lower (w ! k)"
      using Cons.prems(2) by (auto dest: spec[where x="Suc k" for k])
  qed
  with 1 have "Suc i + length w \<in> set (rmatch (cat (lit c # map lit w)) True s i)"
    unfolding lits_def by (rule rmatch_cat_Cons)
  then show ?case by (simp add: lits_def)
qed

lemma rep_from_zero_mem: "i \<in> set (rep_from step len 0 n i)"
  by (subst rep_from.simps) simp

lemma rep_from_step_mem:
  "j \<in> set (step i) \<Longrightarrow> i \<le> j \<Longrightarrow> j \<le> len \<Longrightarrow> 0 < m \<or> i < j \<Longrightarrow> n \<noteq> Some 0 \<Longrightarrow>
   k \<in> set (rep_from step len (m - 1) (map_option (\<lambda>k. k - 1) n) j) \<Longrightarrow>
   k \<in> set (rep_from step len m n i)"
  by (subst rep_from.simps) auto

lemma rmatch_many1_once:
  "j \<in> set (rmatch r ic s i) \<Longrightarrow> i \<le> j \<Longrightarrow> j \<le> length s \<Longrightarrow> j \<in> set (rmatch (many1 r) ic s i)"
  unfolding many1_def rmatch.simps
  by (rule rep_from_step_mem[where j = j]) (simp_all add: rep_from_zero_mem)




lemma re_search_I:
  "i \<le> length s \<Longrightarrow> rmatch (body p) (ignorecase p) s i \<noteq> [] \<Longrightarrow> re_search p s"
proof -
  assume "i \<le> length s" and "rmatch (body p) (ignorecase p) s i \<noteq> []"
  then have "\<exists>i \<in> set [0..<Suc (length s)]. rmatch (body p) (ignorecase p) s i \<noteq> []"
    by (intro bexI[of _ i]) (simp_all del: upt_Suc)
  then show ?thesis
    unfolding re_search_def list_ex_iff .
qed




lemma rmatch_lits_sub:
  assumes "map to_lower (take (length u) (drop i s)) = map to_lower u" and "i + length u \<le> length s"
  shows "i + length u \<in> set (rmatch (lits u) True s i)"
proof (rule rmatch_lits[OF assms(2)], intro allI impI)
  fix k assume k: "k < length u"
  have "to_lower (s ! (i + k)) = map to_lower (take (length u) (drop i s)) ! k"
    using k assms(2) by simp
  also have "\<dots> = to_lower (u ! k)"
    using k by (simp only: assms(1)) simp
  finally show "to_lower (s ! (i + k)) = to_lower (u ! k)" .
qed

lemma lower_words:
  "map to_lower ''drop'' = ''drop''" "map to_lower ''table'' = ''table''"
  by (simp_all add: to_lower_def in_range_def code_def)

lemma drop_table_matches:
  assumes w: "map to_lower w = ''drop table''"
  shows "re_search (icase [lits ''drop'', many1 sp, lits ''table'']) (pre @ w @ post)"
proof -
  let ?s = "pre @ w @ post"
  let ?i = "length pre"
  have len: "length w = 10"
    using arg_cong[OF w, of length] by simp
  have a: "?i + 4 \<in> set (rmatch (lits ''drop'') True ?s ?i)"
  proof -
    have "map to_lower (take 4 w) = take 4 (map to_lower w)" by (simp add: take_map)
    then have t: "map to_lower (take 4 w) = ''drop''" by (simp add: w)
    have l: "length ''drop'' = 4" by simp
    have "take 4 (drop ?i ?s) = take 4 w" using len by simp
    then have "map to_lower (take (length ''drop'') (drop ?i ?s)) = map to_lower ''drop''"
      by (simp only: l t lower_words)
    from rmatch_lits_sub[OF this] len show ?thesis by (simp only: l) simp
  qed
  have b: "?i + 5 \<in> set (rmatch (many1 sp) True ?s (?i + 4))"
  proof -
    have "to_lower (w ! 4) = map to_lower w ! 4" using len by simp
    then have "w ! 4 = CHR '' ''" by (simp add: w to_lower_space)
    then have "?s ! (?i + 4) = CHR '' ''" using len by (simp add: nth_append)
    then have "Suc (?i + 4) \<in> set (rmatch sp True ?s (?i + 4))"
      using len by (simp add: sp_def set_match_def is_space_blank)
    then have "Suc (?i + 4) \<in> set (rmatch (many1 sp) True ?s (?i + 4))"
      by (rule rmatch_many1_once) (use len in simp_all)
    moreover have "Suc (?i + 4) = ?i + 5" by simp
    ultimately show ?thesis by (simp only:)
  qed
  have c: "?i + 10 \<in> set (rmatch (lits ''table'') True ?s (?i + 5))"
  proof -
    have "map to_lower (take 5 (drop 5 w)) = take 5 (drop 5 (map to_lower w))"
      by (simp add: take_map drop_map)
    then have t: "map to_lower (take 5 (drop 5 w)) = ''table''" by (simp add: w)
    have l: "length ''table'' = 5" by simp
    have "take 5 (drop (?i + 5) ?s) = take 5 (drop 5 w)" using len by simp
    then have "map to_lower (take (length ''table'') (drop (?i + 5) ?s)) = map to_lower ''table''"
      by (simp only: l t lower_words)
    from rmatch_lits_sub[OF this] len
    have "?i + 5 + 5 \<in> set (rmatch (lits ''table'') True ?s (?i + 5))" by (simp only: l) simp
    moreover have "?i + 5 + 5 = ?i + 10" by simp
    ultimately show ?thesis by (simp only:)
  qed
  have "?i + 10 \<in> set (rmatch (cat [lits ''drop'', many1 sp, lits ''table'']) True ?s ?i)"
    by (rule rmatch_cat_Cons[OF a], rule rmatch_cat_Cons[OF b], rule rmatch_cat_Cons[OF c])
       (rule rmatch_cat_Nil)
  then have "rmatch (body (icase [lits ''drop'', many1 sp, lits ''table''])) 
               (ignorecase (icase [lits ''drop'', many1 sp, lits ''table''])) ?s ?i \<noteq> []"
    by (auto simp: icase_def)
  then show ?thesis
    by (rule re_search_I[rotated]) simp
qed


lemma critical_is_top:
  "sev \<in> severity_names \<Longrightarrow> spec_severity_rank ''critical'' \<le> spec_severity_rank sev \<Longrightarrow> sev = ''critical''"
  by (auto simp: severity_names_def spec_severity_rank_def)

lemma critical_rule_matched:
  assumes rule: "rule \<in> set threat_rules" and hit: "re_search (snd rule) c"
    and crit: "get_threat_severity (fst rule) = ''critical''"
  shows "threat_of rule \<in> set (fst (scan_threats c))" and "snd (scan_threats c) = ''critical''"
proof -
  define infos where "infos = map threat_of (matched_rules c)"
  have "rule \<in> set (matched_rules c)"
    using rule hit by (simp add: matched_rules_def)
  then have t: "threat_of rule \<in> set infos" by (simp add: infos_def)
  have sv: "ti_severity (threat_of rule) = ''critical''"
    using crit by (simp add: threat_of_def)
  have low: "''low'' \<in> severity_names" by (simp add: severity_names_def)
  have sub: "set (map ti_severity infos) \<subseteq> severity_names"
    by (auto simp: infos_def threat_of_def get_threat_severity_names)
  from fold_severity_rank[OF low sub]
  have n: "foldl update_severity ''low'' (map ti_severity infos) \<in> severity_names"
    and r: "spec_severity_rank (foldl update_severity ''low'' (map ti_severity infos))
         = Max (insert (spec_severity_rank ''low'') (spec_severity_rank ` set (map ti_severity infos)))"
    by blast+
  have "''critical'' \<in> set (map ti_severity infos)"
    using t sv by force
  then have "spec_severity_rank ''critical'' \<in> spec_severity_rank ` set (map ti_severity infos)"
    by (rule imageI)
  then have "spec_severity_rank ''critical''
      \<le> Max (insert (spec_severity_rank ''low'') (spec_severity_rank ` set (map ti_severity infos)))"
    by (intro Max_ge) simp_all
  with r have "spec_severity_rank ''critical''
      \<le> spec_severity_rank (foldl update_severity ''low'' (map ti_severity infos))"
    by simp
  from critical_is_top[OF n this]
  show "snd (scan_threats c) = ''critical''" by (simp add: scan_threats_eq infos_def)
  show "threat_of rule \<in> set (fst (scan_threats c))"
    using t by (simp add: scan_threats_eq infos_def)
qed

lemma drop_table_rule:
  "(''sql_injection'', icase [lits ''drop'', many1 sp, lits ''table'']) \<in> set threat_rules"
  by (simp add: threat_rules_def threat_patterns_def sql_injection_patterns_def)

text \<open>
  Claim C5. When the analysed content contains \<open>drop table\<close> with each letter in
  either case, \<open>analyze_request_security\<close> returns \<open>safe = False\<close>, a detected
  threat of type \<open>sql_injection\<close>, and the overall severity \<open>critical\<close>.
\<close>

theorem drop_table_detected:
  assumes c: "content_of to_str rd = pre @ w @ post" and w: "map to_lower w = ''drop table''"
  shows "let r = fst (analyze_request_security to_str now operation rd st) in
           safe r = False
         \<and> (\<exists>t \<in> set (threats_detected r). ti_type t = ''sql_injection'' \<and> ti_severity t = ''critical'')
         \<and> severity r = ''critical''"
proof -
  define rule where "rule = (''sql_injection'', icase [lits ''drop'', many1 sp, lits ''table''])"
  have hit: "re_search (snd rule) (pre @ w @ post)"
    unfolding rule_def snd_conv by (rule drop_table_matches[OF w])
  have mem: "rule \<in> set threat_rules"
    unfolding rule_def by (rule drop_table_rule)
  have crit: "get_threat_severity (fst rule) = ''critical''"
    by (simp add: rule_def get_threat_severity_def)
  have ty: "ti_type (threat_of rule) = ''sql_injection''"
    and sv: "ti_severity (threat_of rule) = ''critical''"
    by (simp_all add: rule_def threat_of_def get_threat_severity_def)
  from critical_rule_matched[OF mem hit crit]
  have t: "threat_of rule \<in> set (fst (scan_threats (pre @ w @ post)))"
    and sev: "snd (scan_threats (pre @ w @ post)) = ''critical''"
    by blast+
  from t have ne: "fst (scan_threats (pre @ w @ post)) \<noteq> []"
    by (cases "fst (scan_threats (pre @ w @ post))") simp_all
  have ex: "\<exists>t \<in> set (fst (scan_threats (pre @ w @ post))).
              ti_type t = ''sql_injection'' \<and> ti_severity t = ''critical''"
    using t ty sv by blast
  show ?thesis
    unfolding Let_def analyze_result c using ne ex sev by simp
qed

theorem drop_table_detected_witness:
  "content_of (\<lambda>v. v) [''content'' \<mapsto> ''SELECT * FROM users; DROP TABLE users;'']
      = ''SELECT * FROM users; '' @ ''DROP TABLE'' @ '' users;''
   \<and> map to_lower ''DROP TABLE'' = ''drop table''
   \<and> safe (fst (analyze_request_security (\<lambda>v. v) 0 ''test''
              [''content'' \<mapsto> ''SELECT * FROM users; DROP TABLE users;''] init)) = False
   \<and> severity (fst (analyze_request_security (\<lambda>v. v) 0 ''test''
              [''content'' \<mapsto> ''SELECT * FROM users; DROP TABLE users;''] init)) = ''critical''"
proof -
  have c: "content_of (\<lambda>v. v) [''content'' \<mapsto> ''SELECT * FROM users; DROP TABLE users;'']
      = ''SELECT * FROM users; '' @ ''DROP TABLE'' @ '' users;''"
    by (simp add: content_of_def)
  have w: "map to_lower ''DROP TABLE'' = ''drop table''"
    by code_simp
  show ?thesis
    using c w drop_table_detected[OF c w, of 0 "''test''" init]
    by (simp add: Let_def)
qed










end
